theory Spec2Isabelle
  imports Complex_Main "HOL-Library.Word" "HOL-Library.Log_Nat"
begin

unbundle bit_operations_syntax

section \<open>Data model (bmc\_state.h)\<close>

text \<open>
  The C structures of \<^verbatim>\<open>bmc_state.h\<close> become records, the enums become datatypes whose
  constructors keep the C names and the C declaration order. A \<^verbatim>\<open>double\<close> is modelled as
  a \<^typ>\<open>real\<close>: NaN and the infinities are not values of the model, comparisons are exact
  as they are in binary64, and arithmetic is exact except in \<open>pid_compute_fp\<close>, which
  rounds the result of every operation.
  \<^verbatim>\<open>int\<close> fields are \<^typ>\<open>int\<close> (none of the modelled code can overflow them),
  \<^verbatim>\<open>uint8_t\<close>, \<^verbatim>\<open>uint16_t\<close> and \<^verbatim>\<open>uint32_t\<close> are words, \<^verbatim>\<open>time_t\<close> is an \<^typ>\<open>int\<close>, a
  NUL-terminated \<^verbatim>\<open>char\<close> buffer is a \<^typ>\<open>string\<close>, and a C array is a list whose length
  is the declared bound. The field \<^verbatim>\<open>output\<close> of \<^verbatim>\<open>pid_state_t\<close> is named
  \<open>pid_output\<close> (the plain name is reserved), and the fields \<^verbatim>\<open>name\<close>, \<^verbatim>\<open>type\<close>,
  \<^verbatim>\<open>value\<close>, \<^verbatim>\<open>status\<close>, \<^verbatim>\<open>id\<close>, \<^verbatim>\<open>timestamp\<close>, ... carry a prefix naming their
  structure. The mutex is not modelled: every function below is one sequential call.
  Output on the terminal (\<^verbatim>\<open>printf\<close>) is left out.
\<close>

definition MAX_SENSORS :: nat where "MAX_SENSORS = 8"
definition MAX_SEL_ENTRIES :: nat where "MAX_SEL_ENTRIES = 256"
definition MAX_FW_IMAGES :: nat where "MAX_FW_IMAGES = 4"

datatype sensor_type_t =
  SENSOR_TYPE_TEMPERATURE | SENSOR_TYPE_VOLTAGE | SENSOR_TYPE_FAN_RPM | SENSOR_TYPE_POWER

datatype sensor_status_t =
  SENSOR_STATUS_OK | SENSOR_STATUS_WARNING | SENSOR_STATUS_CRITICAL | SENSOR_STATUS_ABSENT

record sensor_reading_t =
  sr_name :: string
  sr_type :: sensor_type_t
  sr_value :: real
  min_valid :: real
  max_warning :: real
  max_critical :: real
  sr_status :: sensor_status_t
  last_updated :: int

record pid_state_t =
  kp :: real
  ki :: real
  kd :: real
  setpoint :: real
  integral :: real
  prev_error :: real
  pid_output :: real
  output_min :: real
  output_max :: real

datatype sel_severity_t = SEL_SEVERITY_INFO | SEL_SEVERITY_WARNING | SEL_SEVERITY_CRITICAL

record sel_entry_t =
  sel_id :: "32 word"
  sel_timestamp :: int
  sel_severity :: sel_severity_t
  sel_source :: string
  sel_message :: string

record fw_image_t =
  fw_name :: string
  expected_hash :: string
  actual_hash :: string
  verified :: bool
  passed :: bool

record bmc_state_t =
  sensors :: "sensor_reading_t list"
  sensor_count :: int
  pid :: pid_state_t
  fan_duty_percent :: real
  sel :: "sel_entry_t list"
  sel_count :: int
  sel_next_id :: "32 word"
  fw_images :: "fw_image_t list"
  fw_image_count :: int
  secure_boot_passed :: bool
  running :: bool

section \<open>PID controller (pid\_control.c)\<close>

definition pid_init :: "pid_state_t \<Rightarrow> real \<Rightarrow> real \<Rightarrow> real \<Rightarrow> real \<Rightarrow> pid_state_t" where
  "pid_init p kp' ki' kd' sp =
     p\<lparr>kp := kp', ki := ki', kd := kd', setpoint := sp, integral := 0, prev_error := 0,
       pid_output := 30, output_min := 10, output_max := 100\<rparr>"

text \<open>
  \<^verbatim>\<open>pid_compute\<close> returns the new output and the updated controller. The statements are
  kept in the order of the source; \<open>integral_limit\<close> is computed before the test on
  \<open>ki\<close>, as in the source, and is only read when \<open>ki > 0\<close>.
\<close>

definition pid_compute :: "pid_state_t \<Rightarrow> real \<Rightarrow> real \<Rightarrow> real \<times> pid_state_t" where
  "pid_compute p current_temp dt0 =
    (let dt = (if dt0 \<le> 0 then 1 else dt0);
         error = current_temp - setpoint p;
         p_term = kp p * error;
         integ0 = integral p + error * dt;
         integral_limit = (output_max p - output_min p) / ki p;
         integ1 = (if ki p > 0 \<and> integ0 > integral_limit then integral_limit else integ0);
         integ2 = (if ki p > 0 \<and> integ1 < - integral_limit then - integral_limit else integ1);
         i_term = ki p * integ2;
         derivative = (error - prev_error p) / dt;
         d_term = kd p * derivative;
         out0 = p_term + i_term + d_term;
         out1 = out0 + 40;
         out2 = (if out1 < output_min p then output_min p else out1);
         out3 = (if out2 > output_max p then output_max p else out2)
     in (out3, p\<lparr>integral := integ2, prev_error := error, pid_output := out3\<rparr>))"

text \<open>
  Rounding to binary64, for the places where a property depends on it: \<open>b64 x\<close> is the
  number with a 53-bit significand nearest to \<open>x\<close>, ties going to the even significand
  (the default rounding of IEEE 754). \<open>floor_log2 x\<close> is the exponent \<open>e\<close> with
  \<open>2 ^ e \<le> x < 2 ^ (e + 1)\<close> for \<open>x > 0\<close>. The exponent is not bounded: \<open>b64\<close> agrees with
  binary64 on the normal range (magnitudes from \<open>2 ^ -1022\<close> up to the largest
  \<^verbatim>\<open>double\<close>) and does not model overflow or subnormal numbers.
\<close>

definition floor_log2 :: "real \<Rightarrow> int" where
  "floor_log2 x = (if 1 \<le> x then bitlen \<lfloor>x\<rfloor> - 1 else - bitlen (\<lceil>1 / x\<rceil> - 1))"

definition round_half_even :: "real \<Rightarrow> int" where
  "round_half_even y =
     (let f = \<lfloor>y\<rfloor>; d = y - of_int f
      in if d < 1/2 then f else if 1/2 < d then f + 1 else if even f then f else f + 1)"

definition pow2 :: "int \<Rightarrow> real" where
  "pow2 e = (if 0 \<le> e then 2 ^ nat e else 1 / 2 ^ nat (- e))"

definition b64 :: "real \<Rightarrow> real" where
  "b64 x =
     (if x = 0 then 0
      else (let u = pow2 (floor_log2 \<bar>x\<bar> - 52)
            in sgn x * of_int (round_half_even (\<bar>x\<bar> / u)) * u))"

text \<open>
  \<^verbatim>\<open>pid_compute\<close> with the rounding of the machine made explicit: \<open>rnd\<close> is applied to
  the exact result of every addition, subtraction, multiplication and division of the
  source, in the order of the source (each operation rounded once, no fused
  multiply-add); the comparisons and the negation of the limit are exact. With
  \<open>rnd = b64\<close> this is the arithmetic of the C code on \<^verbatim>\<open>double\<close>; with the identity
  for \<open>rnd\<close> it is \<open>pid_compute\<close>.
\<close>

definition pid_compute_fp ::
  "(real \<Rightarrow> real) \<Rightarrow> pid_state_t \<Rightarrow> real \<Rightarrow> real \<Rightarrow> real \<times> pid_state_t" where
  "pid_compute_fp rnd p current_temp dt0 =
    (let dt = (if dt0 \<le> 0 then 1 else dt0);
         error = rnd (current_temp - setpoint p);
         p_term = rnd (kp p * error);
         integ0 = rnd (integral p + rnd (error * dt));
         integral_limit = rnd (rnd (output_max p - output_min p) / ki p);
         integ1 = (if ki p > 0 \<and> integ0 > integral_limit then integral_limit else integ0);
         integ2 = (if ki p > 0 \<and> integ1 < - integral_limit then - integral_limit else integ1);
         i_term = rnd (ki p * integ2);
         derivative = rnd (rnd (error - prev_error p) / dt);
         d_term = rnd (kd p * derivative);
         out0 = rnd (rnd (p_term + i_term) + d_term);
         out1 = rnd (out0 + 40);
         out2 = (if out1 < output_min p then output_min p else out1);
         out3 = (if out2 > output_max p then output_max p else out2)
     in (out3, p\<lparr>integral := integ2, prev_error := error, pid_output := out3\<rparr>))"

definition pid_reset :: "pid_state_t \<Rightarrow> pid_state_t" where
  "pid_reset p = p\<lparr>integral := 0, prev_error := 0\<rparr>"

definition pid_set_output_limits :: "pid_state_t \<Rightarrow> real \<Rightarrow> real \<Rightarrow> pid_state_t" where
  "pid_set_output_limits p mn mx =
    (if mn \<ge> mx then p
     else
       (let p1 = p\<lparr>output_min := mn, output_max := mx\<rparr>;
            p2 = (if pid_output p1 < mn then p1\<lparr>pid_output := mn\<rparr> else p1);
            p3 = (if pid_output p2 > mx then p2\<lparr>pid_output := mx\<rparr> else p2)
        in p3))"


section \<open>Formatting helpers\<close>

text \<open>
  The decimal text of a number, as \<^verbatim>\<open>%d\<close> prints an \<^verbatim>\<open>int\<close> and \<^verbatim>\<open>%.0f\<close> a whole
  \<^verbatim>\<open>double\<close>.
\<close>

definition digit_char :: "nat \<Rightarrow> char" where
  "digit_char d = char_of (of_char CHR ''0'' + d)"

fun decimal :: "nat \<Rightarrow> string" where
  "decimal n =
     (let q = n div 10; last_digit = [digit_char (n mod 10)]
      in if q = 0 then last_digit else decimal q @ last_digit)"

definition decimal_int :: "int \<Rightarrow> string" where
  "decimal_int i = (if 0 \<le> i then decimal (nat i) else CHR ''-'' # decimal (nat (- i)))"

section \<open>State store (bmc\_state.c)\<close>

definition zero_sensor :: sensor_reading_t where
  "zero_sensor = \<lparr>sr_name = [], sr_type = SENSOR_TYPE_TEMPERATURE, sr_value = 0, min_valid = 0,
     max_warning = 0, max_critical = 0, sr_status = SENSOR_STATUS_OK, last_updated = 0\<rparr>"

definition zero_pid :: pid_state_t where
  "zero_pid = \<lparr>kp = 0, ki = 0, kd = 0, setpoint = 0, integral = 0, prev_error = 0,
     pid_output = 0, output_min = 0, output_max = 0\<rparr>"

definition zero_sel_entry :: sel_entry_t where
  "zero_sel_entry = \<lparr>sel_id = 0, sel_timestamp = 0, sel_severity = SEL_SEVERITY_INFO,
     sel_source = [], sel_message = []\<rparr>"

definition zero_fw_image :: fw_image_t where
  "zero_fw_image = \<lparr>fw_name = [], expected_hash = [], actual_hash = [], verified = False,
     passed = False\<rparr>"

text \<open>The state after \<^verbatim>\<open>memset(state, 0, sizeof(bmc_state_t))\<close>.\<close>

definition zero_state :: bmc_state_t where
  "zero_state = \<lparr>sensors = replicate MAX_SENSORS zero_sensor, sensor_count = 0, pid = zero_pid,
     fan_duty_percent = 0, sel = replicate MAX_SEL_ENTRIES zero_sel_entry, sel_count = 0,
     sel_next_id = 0, fw_images = replicate MAX_FW_IMAGES zero_fw_image, fw_image_count = 0,
     secure_boot_passed = False, running = False\<rparr>"

text \<open>
  \<^verbatim>\<open>bmc_state_init\<close>; \<open>mutex_ok\<close> says whether \<^verbatim>\<open>pthread_mutex_init\<close> succeeded.
\<close>

definition bmc_state_init :: "bool \<Rightarrow> int \<times> bmc_state_t" where
  "bmc_state_init mutex_ok =
     (if \<not> mutex_ok then (- 1, zero_state)
      else (0, zero_state\<lparr>running := True, sel_next_id := 1, fan_duty_percent := 30\<rparr>))"

text \<open>
  The arrays of a state have their declared lengths. The C code reads and writes them
  at indices below the counts, so the counts of a state the code can run on stay
  within the lengths.
\<close>

definition state_wf :: "bmc_state_t \<Rightarrow> bool" where
  "state_wf st \<longleftrightarrow>
     length (sensors st) = MAX_SENSORS \<and> 0 \<le> sensor_count st \<and> sensor_count st \<le> int MAX_SENSORS
     \<and> length (sel st) = MAX_SEL_ENTRIES \<and> 0 \<le> sel_count st \<and> sel_count st \<le> int MAX_SEL_ENTRIES
     \<and> length (fw_images st) = MAX_FW_IMAGES \<and> 0 \<le> fw_image_count st
     \<and> fw_image_count st \<le> int MAX_FW_IMAGES"

section \<open>Event log (event\_log.c)\<close>

definition sel_init :: "bmc_state_t \<Rightarrow> bmc_state_t" where
  "sel_init st = st\<lparr>sel_count := 0, sel_next_id := 1\<rparr>"

text \<open>
  \<^verbatim>\<open>sel_add_entry(state, severity, source, fmt, ...)\<close>. The argument \<open>msg\<close> is the text
  that \<^verbatim>\<open>fmt\<close> and its arguments expand to; \<open>now\<close> is what \<^verbatim>\<open>time(NULL)\<close> returns. The
  \<^verbatim>\<open>memmove\<close> copies the \<open>MAX_SEL_ENTRIES - 1\<close> entries from index 1 to index 0 and
  leaves the last slot as it was. \<^verbatim>\<open>strncpy\<close> with the explicit terminator keeps 31
  characters of the source, \<^verbatim>\<open>vsnprintf\<close> keeps 255 characters of the message. The
  result is \<^verbatim>\<open>(int)entry->id\<close>. On a Critical entry the C code also calls \<^verbatim>\<open>sel_save\<close>,
  which writes \<^verbatim>\<open>/tmp/bmc_sel.json\<close> and changes no field of the state; that file is not
  part of the model.
\<close>

definition sel_add_entry ::
  "bmc_state_t \<Rightarrow> int \<Rightarrow> sel_severity_t \<Rightarrow> string \<Rightarrow> string \<Rightarrow> int \<times> bmc_state_t" where
  "sel_add_entry st now severity source msg =
    (let st1 = (if sel_count st \<ge> int MAX_SEL_ENTRIES
                then st\<lparr>sel := take (MAX_SEL_ENTRIES - 1) (drop 1 (sel st))
                                 @ drop (MAX_SEL_ENTRIES - 1) (sel st),
                        sel_count := int MAX_SEL_ENTRIES - 1\<rparr>
                else st);
         entry = \<lparr>sel_id = sel_next_id st1, sel_timestamp = now, sel_severity = severity,
                  sel_source = take 31 source, sel_message = take 255 msg\<rparr>;
         st2 = st1\<lparr>sel := (sel st1)[nat (sel_count st1) := entry],
                   sel_next_id := sel_next_id st1 + 1,
                   sel_count := sel_count st1 + 1\<rparr>
     in (sint (sel_id entry), st2))"

text \<open>\<^verbatim>\<open>sel_get_entry\<close>: the first live entry with the given id, or \<open>None\<close> for \<^verbatim>\<open>NULL\<close>.\<close>

definition sel_get_entry :: "bmc_state_t \<Rightarrow> 32 word \<Rightarrow> sel_entry_t option" where
  "sel_get_entry st i = find (\<lambda>e. sel_id e = i) (take (nat (sel_count st)) (sel st))"

text \<open>
  A run of appends: each element gives the time, severity, source and message of one
  call of \<^verbatim>\<open>sel_add_entry\<close>.
\<close>

type_synonym sel_args = "int \<times> sel_severity_t \<times> string \<times> string"

definition sel_add_args :: "sel_args \<Rightarrow> bmc_state_t \<Rightarrow> bmc_state_t" where
  "sel_add_args a st = (case a of (now, sev, src, msg) \<Rightarrow> snd (sel_add_entry st now sev src msg))"

definition sel_add_all :: "sel_args list \<Rightarrow> bmc_state_t \<Rightarrow> bmc_state_t" where
  "sel_add_all as st = fold sel_add_args as st"

text \<open>The ids of the live entries, oldest first.\<close>

definition sel_live_ids :: "bmc_state_t \<Rightarrow> 32 word list" where
  "sel_live_ids st = map sel_id (take (nat (sel_count st)) (sel st))"

section \<open>Sensor engine (sensor.c)\<close>

text \<open>
  \<^verbatim>\<open>gaussian_noise(mean, stddev)\<close> returns \<open>mean + stddev * x\<close> where \<open>x\<close> is the
  standard normal draw it takes from \<^verbatim>\<open>rand()\<close> or from its cached spare. The draw is an
  argument of the model.
\<close>

definition gaussian_noise :: "real \<Rightarrow> real \<Rightarrow> real \<Rightarrow> real" where
  "gaussian_noise mean stddev x = mean + stddev * x"

record sensor_config_t =
  cfg_name :: string
  cfg_type :: sensor_type_t
  base_value :: real
  noise_stddev :: real
  cfg_min_valid :: real
  cfg_max_warning :: real
  cfg_max_critical :: real

definition mk_cfg ::
  "string \<Rightarrow> sensor_type_t \<Rightarrow> real \<Rightarrow> real \<Rightarrow> real \<Rightarrow> real \<Rightarrow> real \<Rightarrow> sensor_config_t" where
  "mk_cfg n t b sd lo w c = \<lparr>cfg_name = n, cfg_type = t, base_value = b, noise_stddev = sd,
     cfg_min_valid = lo, cfg_max_warning = w, cfg_max_critical = c\<rparr>"

definition default_sensors :: "sensor_config_t list" where
  "default_sensors =
    [mk_cfg ''CPU_Temp'' SENSOR_TYPE_TEMPERATURE 55 (3/2) 10 75 90,
     mk_cfg ''Inlet_Temp'' SENSOR_TYPE_TEMPERATURE 28 (8/10) 5 38 45,
     mk_cfg ''PCH_Temp'' SENSOR_TYPE_TEMPERATURE 48 1 10 70 85,
     mk_cfg ''VCore'' SENSOR_TYPE_VOLTAGE (105/100) (2/100) (90/100) (115/100) (125/100),
     mk_cfg ''V3.3_Stdby'' SENSOR_TYPE_VOLTAGE (330/100) (3/100) (310/100) (350/100) (360/100),
     mk_cfg ''V12_Main'' SENSOR_TYPE_VOLTAGE 12 (8/100) (1140/100) (1260/100) 13,
     mk_cfg ''CPU_Fan'' SENSOR_TYPE_FAN_RPM 3000 50 500 6000 7000,
     mk_cfg ''SYS_Fan'' SENSOR_TYPE_FAN_RPM 2500 40 400 5000 6000]"

definition NUM_DEFAULT_SENSORS :: nat where
  "NUM_DEFAULT_SENSORS = length default_sensors"

definition sensor_status_str :: "sensor_status_t \<Rightarrow> string" where
  "sensor_status_str s = (case s of
      SENSOR_STATUS_OK \<Rightarrow> ''OK''
    | SENSOR_STATUS_WARNING \<Rightarrow> ''Warning''
    | SENSOR_STATUS_CRITICAL \<Rightarrow> ''Critical''
    | SENSOR_STATUS_ABSENT \<Rightarrow> ''Absent'')"

definition evaluate_status :: "sensor_reading_t \<Rightarrow> sensor_status_t" where
  "evaluate_status s =
    (if sr_type s = SENSOR_TYPE_FAN_RPM then
       (if sr_value s < min_valid s then SENSOR_STATUS_CRITICAL
        else if sr_value s > max_critical s then SENSOR_STATUS_CRITICAL
        else if sr_value s > max_warning s then SENSOR_STATUS_WARNING
        else SENSOR_STATUS_OK)
     else if sr_value s \<ge> max_critical s then SENSOR_STATUS_CRITICAL
     else if sr_value s \<ge> max_warning s then SENSOR_STATUS_WARNING
     else if sr_value s < min_valid s then SENSOR_STATUS_WARNING
     else SENSOR_STATUS_OK)"

text \<open>
  The classification in the words of the specification, to compare
  \<open>evaluate_status\<close> with.
\<close>

definition status_by_spec :: "sensor_reading_t \<Rightarrow> sensor_status_t" where
  "status_by_spec s =
    (if sr_type s = SENSOR_TYPE_FAN_RPM then
       (if sr_value s < min_valid s \<or> sr_value s > max_critical s then SENSOR_STATUS_CRITICAL
        else if sr_value s > max_warning s then SENSOR_STATUS_WARNING
        else SENSOR_STATUS_OK)
     else
       (if sr_value s \<ge> max_critical s then SENSOR_STATUS_CRITICAL
        else if sr_value s \<ge> max_warning s \<or> sr_value s < min_valid s then SENSOR_STATUS_WARNING
        else SENSOR_STATUS_OK))"

text \<open>
  One iteration of the loop of \<^verbatim>\<open>sensor_init\<close>. \<^verbatim>\<open>strncpy\<close> copies at most 63 characters
  of the configured name into the 64-byte buffer. The call \<^verbatim>\<open>srand(time(NULL))\<close> only seeds
  the generator behind the noise draws, which are arguments of \<open>sensor_poll\<close> here.
\<close>

definition sensor_init_step :: "int \<Rightarrow> nat \<Rightarrow> bmc_state_t \<Rightarrow> bmc_state_t" where
  "sensor_init_step now i st =
    (let cfg = default_sensors ! i;
         s = sensors st ! i;
         s' = s\<lparr>sr_name := take 63 (cfg_name cfg), sr_type := cfg_type cfg,
                sr_value := base_value cfg, min_valid := cfg_min_valid cfg,
                max_warning := cfg_max_warning cfg, max_critical := cfg_max_critical cfg,
                sr_status := SENSOR_STATUS_OK, last_updated := now\<rparr>
     in st\<lparr>sensors := (sensors st)[i := s']\<rparr>)"

definition sensor_init :: "bmc_state_t \<Rightarrow> int \<Rightarrow> int \<times> bmc_state_t" where
  "sensor_init st now =
    (let st1 = st\<lparr>sensor_count := int NUM_DEFAULT_SENSORS\<rparr>;
         st2 = (if sensor_count st1 > int MAX_SENSORS
                then st1\<lparr>sensor_count := int MAX_SENSORS\<rparr> else st1)
     in (0, fold (sensor_init_step now) [0..<nat (sensor_count st2)] st2))"

text \<open>
  The \<^verbatim>\<open>switch (s->type)\<close> of \<^verbatim>\<open>sensor_poll\<close>: the new value of a sensor from its
  configuration, the fan duty and the normal draw \<open>x\<close> that \<^verbatim>\<open>gaussian_noise\<close> uses.
\<close>

definition sensor_simulate ::
  "real \<Rightarrow> real \<Rightarrow> sensor_config_t \<Rightarrow> sensor_reading_t \<Rightarrow> sensor_reading_t" where
  "sensor_simulate fan_duty x cfg s =
    (case sr_type s of
       SENSOR_TYPE_TEMPERATURE \<Rightarrow>
         (let heat_load = 15;
              cool_capacity = 25;
              cooling = (fan_duty / 100) * cool_capacity;
              target = base_value cfg + heat_load - cooling;
              v1 = sr_value s + (target - sr_value s) * (1/10);
              v2 = v1 + gaussian_noise 0 (noise_stddev cfg) x;
              v3 = (if v2 < 5 then 5 else v2);
              v4 = (if v3 > 105 then 105 else v3)
          in s\<lparr>sr_value := v4\<rparr>)
     | SENSOR_TYPE_VOLTAGE \<Rightarrow>
         (let v1 = base_value cfg + gaussian_noise 0 (noise_stddev cfg) x;
              v2 = (if v1 < 0 then 0 else v1)
          in s\<lparr>sr_value := v2\<rparr>)
     | SENSOR_TYPE_FAN_RPM \<Rightarrow>
         (let max_rpm = base_value cfg * 2;
              v1 = (fan_duty / 100) * max_rpm + gaussian_noise 0 (noise_stddev cfg) x;
              v2 = (if v1 < 0 then 0 else v1)
          in s\<lparr>sr_value := v2\<rparr>)
     | SENSOR_TYPE_POWER \<Rightarrow> s)"

text \<open>
  One iteration of the loop of \<^verbatim>\<open>sensor_poll\<close> for sensor \<open>i\<close>. \<open>z i\<close> is the normal
  draw used for that sensor, \<open>fmt2\<close> prints a \<^verbatim>\<open>double\<close> as \<^verbatim>\<open>%.2f\<close> does. The calls of
  \<^verbatim>\<open>time(NULL)\<close> within one poll are taken to return the same second \<open>now\<close>.
\<close>

definition sensor_poll_step ::
  "real \<Rightarrow> int \<Rightarrow> (nat \<Rightarrow> real) \<Rightarrow> (real \<Rightarrow> string) \<Rightarrow> nat \<Rightarrow> bmc_state_t \<Rightarrow> bmc_state_t" where
  "sensor_poll_step fan_duty now z fmt2 i st =
    (let s = sensors st ! i;
         cfg = default_sensors ! i;
         old_status = sr_status s;
         s1 = sensor_simulate fan_duty (z i) cfg s;
         s2 = s1\<lparr>last_updated := now\<rparr>;
         s3 = s2\<lparr>sr_status := evaluate_status s2\<rparr>;
         st1 = st\<lparr>sensors := (sensors st)[i := s3]\<rparr>
     in if sr_status s3 \<noteq> old_status \<and> sr_status s3 \<noteq> SENSOR_STATUS_OK then
          (let sev = (if sr_status s3 = SENSOR_STATUS_CRITICAL
                      then SEL_SEVERITY_CRITICAL else SEL_SEVERITY_WARNING)
           in snd (sel_add_entry st1 now sev ''Sensor''
                 (sr_name s3 @ '' transitioned to '' @ sensor_status_str (sr_status s3)
                  @ '' (value: '' @ fmt2 (sr_value s3) @ '')'')))
        else st1)"

definition sensor_poll ::
  "bmc_state_t \<Rightarrow> real \<Rightarrow> int \<Rightarrow> (nat \<Rightarrow> real) \<Rightarrow> (real \<Rightarrow> string) \<Rightarrow> bmc_state_t" where
  "sensor_poll st fan_duty now z fmt2 =
     fold (sensor_poll_step fan_duty now z fmt2) [0..<nat (sensor_count st)] st"

text \<open>
  A sequence of polls; each element gives the fan duty, the time and the noise draws
  of one call of \<^verbatim>\<open>sensor_poll\<close>.
\<close>

type_synonym poll_args = "real \<times> int \<times> (nat \<Rightarrow> real)"

definition sensor_poll_args :: "(real \<Rightarrow> string) \<Rightarrow> poll_args \<Rightarrow> bmc_state_t \<Rightarrow> bmc_state_t" where
  "sensor_poll_args fmt2 a st = (case a of (duty, now, z) \<Rightarrow> sensor_poll st duty now z fmt2)"

definition sensor_poll_all :: "(real \<Rightarrow> string) \<Rightarrow> poll_args list \<Rightarrow> bmc_state_t \<Rightarrow> bmc_state_t" where
  "sensor_poll_all fmt2 as st = fold (sensor_poll_args fmt2) as st"

section \<open>Secure boot verifier (secure\_boot.c)\<close>

text \<open>
  The file system the verifier works on: \<open>files fs p\<close> is the content of the file at
  path \<open>p\<close>, or \<open>None\<close> where \<^verbatim>\<open>fopen\<close> for reading fails; \<open>wdenied fs p\<close> holds where
  \<^verbatim>\<open>fopen\<close> for writing fails (for instance because the \<^verbatim>\<open>mkdir -p\<close> that
  \<^verbatim>\<open>secure_boot_init\<close> runs through \<^verbatim>\<open>system\<close> did not create the directory). The calls
  of \<^verbatim>\<open>time(NULL)\<close> within one modelled call are taken to return the same second \<open>now\<close>.
\<close>

record filesys =
  files :: "string \<Rightarrow> 8 word list option"
  wdenied :: "string \<Rightarrow> bool"

definition FW_IMAGE_DIR :: string where "FW_IMAGE_DIR = ''/tmp/bmc_fw_images''"
definition FW_IMAGE_SIZE :: nat where "FW_IMAGE_SIZE = 4096"

record fw_config_t =
  fwc_name :: string
  fwc_description :: string

definition fw_configs :: "fw_config_t list" where
  "fw_configs =
    [\<lparr>fwc_name = ''bootloader'', fwc_description = ''First-stage bootloader (RoT verified)''\<rparr>,
     \<lparr>fwc_name = ''bmc_firmware'', fwc_description = ''BMC main firmware image''\<rparr>,
     \<lparr>fwc_name = ''application'', fwc_description = ''Management application layer''\<rparr>,
     \<lparr>fwc_name = ''config_data'', fwc_description = ''Platform configuration data''\<rparr>]"

definition NUM_FW_IMAGES :: nat where "NUM_FW_IMAGES = length fw_configs"

text \<open>The path \<^verbatim>\<open>snprintf(path, 256, "%s/%s.bin", FW_IMAGE_DIR, name)\<close> builds.\<close>

definition fw_path :: "string \<Rightarrow> string" where
  "fw_path name = take 255 (FW_IMAGE_DIR @ ''/'' @ name @ ''.bin'')"

text \<open>
  \<^verbatim>\<open>compute_file_hash\<close>: \<open>None\<close> stands for the result \<open>-1\<close> (the output buffer is not
  written), \<open>Some h\<close> for the result 0 with \<open>h\<close> written to the buffer. The digest
  \<open>H\<close> is the hexadecimal SHA-256 of OpenSSL, a parameter of the model.
\<close>

definition compute_file_hash ::
  "(8 word list \<Rightarrow> string) \<Rightarrow> filesys \<Rightarrow> string \<Rightarrow> string option" where
  "compute_file_hash H fs filepath =
     (case files fs filepath of None \<Rightarrow> None | Some bs \<Rightarrow> Some (H bs))"

text \<open>
  \<^verbatim>\<open>generate_fw_image\<close>: \<open>prng seed k\<close> is the value of the \<open>k\<close>-th call of \<^verbatim>\<open>rand()\<close>
  after \<^verbatim>\<open>srand(seed)\<close> (never negative), a parameter of the model.
\<close>

definition fw_image_bytes :: "(int \<Rightarrow> nat \<Rightarrow> nat) \<Rightarrow> int \<Rightarrow> 8 word list" where
  "fw_image_bytes prng seed = map (\<lambda>k. of_nat (prng seed k mod 256)) [0..<FW_IMAGE_SIZE]"

definition generate_fw_image ::
  "(int \<Rightarrow> nat \<Rightarrow> nat) \<Rightarrow> filesys \<Rightarrow> string \<Rightarrow> int \<Rightarrow> int \<times> filesys" where
  "generate_fw_image prng fs filepath seed =
     (if wdenied fs filepath then (- 1, fs)
      else (0, fs\<lparr>files := (files fs)(filepath \<mapsto> fw_image_bytes prng seed)\<rparr>))"

text \<open>One iteration of the loop of \<^verbatim>\<open>secure_boot_init\<close>; both results are ignored there.\<close>

definition secure_boot_init_step ::
  "(8 word list \<Rightarrow> string) \<Rightarrow> (int \<Rightarrow> nat \<Rightarrow> nat) \<Rightarrow> nat \<Rightarrow> bmc_state_t \<times> filesys
     \<Rightarrow> bmc_state_t \<times> filesys" where
  "secure_boot_init_step H prng i sf =
    (let st = fst sf; fs = snd sf;
         fw = fw_images st ! i;
         fw1 = fw\<lparr>fw_name := take 63 (fwc_name (fw_configs ! i)), verified := False,
                  passed := False\<rparr>;
         path = fw_path (fw_name fw1);
         fs1 = snd (generate_fw_image prng fs path (42 + int i));
         fw2 = (case compute_file_hash H fs1 path of
                  None \<Rightarrow> fw1 | Some h \<Rightarrow> fw1\<lparr>expected_hash := h\<rparr>)
     in (st\<lparr>fw_images := (fw_images st)[i := fw2]\<rparr>, fs1))"

definition secure_boot_init ::
  "(8 word list \<Rightarrow> string) \<Rightarrow> (int \<Rightarrow> nat \<Rightarrow> nat) \<Rightarrow> bmc_state_t \<Rightarrow> filesys \<Rightarrow> int
     \<Rightarrow> int \<times> bmc_state_t \<times> filesys" where
  "secure_boot_init H prng st fs now =
    (let st1 = st\<lparr>fw_image_count := int NUM_FW_IMAGES\<rparr>;
         st2 = (if fw_image_count st1 > int MAX_FW_IMAGES
                then st1\<lparr>fw_image_count := int MAX_FW_IMAGES\<rparr> else st1);
         sf = fold (secure_boot_init_step H prng) [0..<nat (fw_image_count st2)] (st2, fs);
         st3 = snd (sel_add_entry (fst sf) now SEL_SEVERITY_INFO ''SecureBoot''
                 (''Secure boot chain initialized with ''
                  @ decimal_int (fw_image_count (fst sf)) @ '' images''))
     in (0, st3, snd sf))"

text \<open>
  The loop of \<^verbatim>\<open>secure_boot_verify\<close> over the image indices still to visit, with the
  running value of \<^verbatim>\<open>all_passed\<close>. The first branch is the \<^verbatim>\<open>continue\<close> of the source
  (the loop goes on with the next index), the last one its \<^verbatim>\<open>break\<close>.
\<close>

fun verify_loop ::
  "(8 word list \<Rightarrow> string) \<Rightarrow> filesys \<Rightarrow> int \<Rightarrow> nat list \<Rightarrow> bool \<Rightarrow> bmc_state_t
     \<Rightarrow> bool \<times> bmc_state_t" where
  "verify_loop H fs now [] all_passed st = (all_passed, st)"
| "verify_loop H fs now (i # rest) all_passed st =
    (let fw = fw_images st ! i;
         path = fw_path (fw_name fw)
     in case compute_file_hash H fs path of
          None \<Rightarrow>
            (let fw1 = fw\<lparr>verified := True, passed := False\<rparr>;
                 st1 = st\<lparr>fw_images := (fw_images st)[i := fw1]\<rparr>;
                 st2 = snd (sel_add_entry st1 now SEL_SEVERITY_CRITICAL ''SecureBoot''
                         (''FAIL: Cannot read image '' @ [CHR 39] @ fw_name fw1 @ [CHR 39]))
             in verify_loop H fs now rest False st2)
        | Some h \<Rightarrow>
            (let fw1 = fw\<lparr>actual_hash := h\<rparr>;
                 fw2 = fw1\<lparr>verified := True\<rparr>;
                 fw3 = fw2\<lparr>passed := (expected_hash fw2 = actual_hash fw2)\<rparr>;
                 st1 = st\<lparr>fw_images := (fw_images st)[i := fw3]\<rparr>
             in if passed fw3 then
                  (let st2 = snd (sel_add_entry st1 now SEL_SEVERITY_INFO ''SecureBoot''
                           (''PASS: Image '' @ [CHR 39] @ fw_name fw3 @ [CHR 39]
                            @ '' integrity verified''))
                   in verify_loop H fs now rest all_passed st2)
                else
                  (let st2 = snd (sel_add_entry st1 now SEL_SEVERITY_CRITICAL ''SecureBoot''
                           (''FAIL: Image '' @ [CHR 39] @ fw_name fw3 @ [CHR 39]
                            @ '' hash mismatch - possible tampering!''))
                   in (False, st2))))"

definition secure_boot_verify ::
  "(8 word list \<Rightarrow> string) \<Rightarrow> filesys \<Rightarrow> bmc_state_t \<Rightarrow> int \<Rightarrow> bool \<times> bmc_state_t" where
  "secure_boot_verify H fs st now =
    (let r = verify_loop H fs now [0..<nat (fw_image_count st)] True st
     in (fst r, (snd r)\<lparr>secure_boot_passed := fst r\<rparr>))"

text \<open>
  \<^verbatim>\<open>secure_boot_inject_tamper\<close>: the file is opened with \<^verbatim>\<open>"r+b"\<close> and one byte
  \<open>0xFF\<close> is written at offset 0.
\<close>

definition secure_boot_inject_tamper ::
  "bmc_state_t \<Rightarrow> filesys \<Rightarrow> int \<Rightarrow> int \<Rightarrow> int \<times> bmc_state_t \<times> filesys" where
  "secure_boot_inject_tamper st fs image_index now =
    (if image_index < 0 \<or> image_index \<ge> fw_image_count st then (- 1, st, fs)
     else
       (let name = fw_name (fw_images st ! nat image_index);
            path = fw_path name
        in case files fs path of
             None \<Rightarrow> (- 1, st, fs)
           | Some bs \<Rightarrow>
               if wdenied fs path then (- 1, st, fs)
               else
                 (let fs1 = fs\<lparr>files := (files fs)(path \<mapsto> 255 # drop 1 bs)\<rparr>;
                      st1 = snd (sel_add_entry st now SEL_SEVERITY_WARNING ''SecureBoot''
                              (''[DEMO] Injected tamper into '' @ [CHR 39] @ name @ [CHR 39]))
                  in (0, st1, fs1))))"

definition secure_boot_restore ::
  "(int \<Rightarrow> nat \<Rightarrow> nat) \<Rightarrow> bmc_state_t \<Rightarrow> filesys \<Rightarrow> int \<Rightarrow> int \<Rightarrow> int \<times> bmc_state_t \<times> filesys" where
  "secure_boot_restore prng st fs image_index now =
    (if image_index < 0 \<or> image_index \<ge> fw_image_count st then (- 1, st, fs)
     else
       (let name = fw_name (fw_images st ! nat image_index);
            path = fw_path name;
            fs1 = snd (generate_fw_image prng fs path (42 + image_index));
            st1 = snd (sel_add_entry st now SEL_SEVERITY_INFO ''SecureBoot''
                    (''[DEMO] Restored image '' @ [CHR 39] @ name @ [CHR 39]))
        in (0, st1, fs1)))"

section \<open>IPMI dispatcher (ipmi.h, ipmi.c)\<close>

definition IPMI_NETFN_SENSOR :: "8 word" where "IPMI_NETFN_SENSOR = 0x04"
definition IPMI_NETFN_APP :: "8 word" where "IPMI_NETFN_APP = 0x06"
definition IPMI_NETFN_STORAGE :: "8 word" where "IPMI_NETFN_STORAGE = 0x0A"

definition IPMI_CMD_GET_DEVICE_ID :: "8 word" where "IPMI_CMD_GET_DEVICE_ID = 0x01"
definition IPMI_CMD_GET_SENSOR_READING :: "8 word" where "IPMI_CMD_GET_SENSOR_READING = 0x2D"
definition IPMI_CMD_SET_FAN_DUTY :: "8 word" where "IPMI_CMD_SET_FAN_DUTY = 0x30"
definition IPMI_CMD_GET_SEL_ENTRY :: "8 word" where "IPMI_CMD_GET_SEL_ENTRY = 0x43"

definition IPMI_CC_OK :: "8 word" where "IPMI_CC_OK = 0x00"
definition IPMI_CC_INVALID_CMD :: "8 word" where "IPMI_CC_INVALID_CMD = 0xC1"
definition IPMI_CC_INVALID_PARAM :: "8 word" where "IPMI_CC_INVALID_PARAM = 0xC9"
definition IPMI_CC_UNSPECIFIED :: "8 word" where "IPMI_CC_UNSPECIFIED = 0xFF"

record ipmi_request_t =
  netfn :: "8 word"
  cmd :: "8 word"
  req_data :: "8 word list"
  req_data_len :: "8 word"

record ipmi_response_t =
  completion_code :: "8 word"
  resp_data :: "8 word list"
  resp_data_len :: "8 word"

text \<open>The \<open>data\<close> arrays of a request and of a response hold 256 bytes.\<close>

definition request_wf :: "ipmi_request_t \<Rightarrow> bool" where
  "request_wf req \<longleftrightarrow> length (req_data req) = 256"

text \<open>The response after \<^verbatim>\<open>memset(resp, 0, sizeof(ipmi_response_t))\<close>.\<close>

definition zero_response :: ipmi_response_t where
  "zero_response = \<lparr>completion_code = 0, resp_data = replicate 256 0, resp_data_len = 0\<rparr>"

text \<open>The values of the enumeration constants, as the casts to \<^verbatim>\<open>uint8_t\<close> give them.\<close>

definition sensor_status_code :: "sensor_status_t \<Rightarrow> 8 word" where
  "sensor_status_code s = (case s of
      SENSOR_STATUS_OK \<Rightarrow> 0 | SENSOR_STATUS_WARNING \<Rightarrow> 1
    | SENSOR_STATUS_CRITICAL \<Rightarrow> 2 | SENSOR_STATUS_ABSENT \<Rightarrow> 3)"

definition sensor_type_code :: "sensor_type_t \<Rightarrow> 8 word" where
  "sensor_type_code t = (case t of
      SENSOR_TYPE_TEMPERATURE \<Rightarrow> 0 | SENSOR_TYPE_VOLTAGE \<Rightarrow> 1
    | SENSOR_TYPE_FAN_RPM \<Rightarrow> 2 | SENSOR_TYPE_POWER \<Rightarrow> 3)"

definition sel_severity_code :: "sel_severity_t \<Rightarrow> 8 word" where
  "sel_severity_code s = (case s of
      SEL_SEVERITY_INFO \<Rightarrow> 0 | SEL_SEVERITY_WARNING \<Rightarrow> 1 | SEL_SEVERITY_CRITICAL \<Rightarrow> 2)"

text \<open>
  The conversion \<^verbatim>\<open>(int16_t)x\<close> of a \<^verbatim>\<open>double\<close>: the fraction is discarded (truncation
  toward zero). Where the truncated value does not fit the type, C leaves the behaviour
  undefined; the model returns \<open>None\<close> there.
\<close>

definition trunc_toward_zero :: "real \<Rightarrow> int" where
  "trunc_toward_zero x = (if x \<ge> 0 then \<lfloor>x\<rfloor> else \<lceil>x\<rceil>)"

definition double_to_int16 :: "real \<Rightarrow> 16 word option" where
  "double_to_int16 x =
     (let t = trunc_toward_zero x
      in if - 32768 \<le> t \<and> t \<le> 32767 then Some (word_of_int t) else None)"

definition handle_get_device_id :: "bmc_state_t \<Rightarrow> ipmi_response_t \<Rightarrow> bmc_state_t \<times> ipmi_response_t" where
  "handle_get_device_id st resp =
     (st, resp\<lparr>completion_code := IPMI_CC_OK,
               resp_data := (resp_data resp)[0 := 0x20, 1 := 0x01, 2 := 0x02, 3 := 0x05, 4 := 0x02],
               resp_data_len := 5\<rparr>)"

text \<open>
  \<^verbatim>\<open>handle_get_sensor_reading\<close>. \<^verbatim>\<open>(uint8_t)(raw >> 8)\<close> is the high byte of \<open>raw\<close>,
  \<^verbatim>\<open>(uint8_t)(raw & 0xFF)\<close> its low byte. The result is \<open>None\<close> where the conversion to
  \<^verbatim>\<open>int16_t\<close> is undefined.
\<close>

definition handle_get_sensor_reading ::
  "bmc_state_t \<Rightarrow> ipmi_request_t \<Rightarrow> ipmi_response_t \<Rightarrow> (bmc_state_t \<times> ipmi_response_t) option" where
  "handle_get_sensor_reading st req resp =
    (if req_data_len req < 1 then Some (st, resp\<lparr>completion_code := IPMI_CC_INVALID_PARAM\<rparr>)
     else
       (let sensor_num = req_data req ! 0
        in if uint sensor_num \<ge> sensor_count st
           then Some (st, resp\<lparr>completion_code := IPMI_CC_INVALID_PARAM\<rparr>)
           else
             (let s = sensors st ! unat sensor_num
              in case double_to_int16 (sr_value s * 256) of
                   None \<Rightarrow> None
                 | Some raw \<Rightarrow>
                     Some (st, resp\<lparr>completion_code := IPMI_CC_OK,
                       resp_data := (resp_data resp)
                         [0 := ucast (drop_bit 8 raw), 1 := ucast (raw AND 0xFF),
                          2 := sensor_status_code (sr_status s), 3 := sensor_type_code (sr_type s)],
                       resp_data_len := 4\<rparr>))))"

definition handle_set_fan_duty ::
  "bmc_state_t \<Rightarrow> ipmi_request_t \<Rightarrow> ipmi_response_t \<Rightarrow> int \<Rightarrow> bmc_state_t \<times> ipmi_response_t" where
  "handle_set_fan_duty st req resp now =
    (if req_data_len req < 1 then (st, resp\<lparr>completion_code := IPMI_CC_INVALID_PARAM\<rparr>)
     else
       (let duty = real (unat (req_data req ! 0))
        in if duty < 0 \<or> duty > 100 then (st, resp\<lparr>completion_code := IPMI_CC_INVALID_PARAM\<rparr>)
           else
             (let st1 = st\<lparr>fan_duty_percent := duty\<rparr>;
                  st2 = snd (sel_add_entry st1 now SEL_SEVERITY_INFO ''IPMI''
                          (''Fan duty manually set to '' @ decimal (unat (req_data req ! 0))
                           @ ''%''))
              in (st2, resp\<lparr>completion_code := IPMI_CC_OK, resp_data_len := 0\<rparr>))))"

definition handle_get_sel_entry ::
  "bmc_state_t \<Rightarrow> ipmi_request_t \<Rightarrow> ipmi_response_t \<Rightarrow> bmc_state_t \<times> ipmi_response_t" where
  "handle_get_sel_entry st req resp =
    (if req_data_len req < 2 then (st, resp\<lparr>completion_code := IPMI_CC_INVALID_PARAM\<rparr>)
     else
       (let entry_id = (push_bit 8 (ucast (req_data req ! 0)) OR ucast (req_data req ! 1) :: 16 word)
        in case sel_get_entry st (ucast entry_id) of
             None \<Rightarrow> (st, resp\<lparr>completion_code := IPMI_CC_INVALID_PARAM\<rparr>)
           | Some entry \<Rightarrow>
               (let d = (resp_data resp)
                          [0 := ucast (drop_bit 8 (sel_id entry)), 1 := ucast (sel_id entry AND 0xFF),
                           2 := sel_severity_code (sel_severity entry)];
                    msg_len0 = length (sel_message entry);
                    msg_len = (if msg_len0 > 200 then 200 else msg_len0);
                    d' = take 3 d @ map of_char (take msg_len (sel_message entry))
                         @ drop (3 + msg_len) d
                in (st, resp\<lparr>completion_code := IPMI_CC_OK, resp_data := d',
                             resp_data_len := of_nat (3 + msg_len)\<rparr>))))"

text \<open>
  \<^verbatim>\<open>ipmi_handle_command\<close>: the response is cleared, then filled by the handler that the
  pair (netfn, cmd) selects. The C function returns 0; the model returns the state and
  the response.
\<close>

definition ipmi_handle_command ::
  "bmc_state_t \<Rightarrow> ipmi_request_t \<Rightarrow> int \<Rightarrow> (bmc_state_t \<times> ipmi_response_t) option" where
  "ipmi_handle_command st req now =
    (let resp = zero_response;
         invalid = Some (st, resp\<lparr>completion_code := IPMI_CC_INVALID_CMD\<rparr>)
     in if netfn req = IPMI_NETFN_APP then
          (if cmd req = IPMI_CMD_GET_DEVICE_ID then Some (handle_get_device_id st resp)
           else invalid)
        else if netfn req = IPMI_NETFN_SENSOR then
          (if cmd req = IPMI_CMD_GET_SENSOR_READING then handle_get_sensor_reading st req resp
           else if cmd req = IPMI_CMD_SET_FAN_DUTY then Some (handle_set_fan_duty st req resp now)
           else invalid)
        else if netfn req = IPMI_NETFN_STORAGE then
          (if cmd req = IPMI_CMD_GET_SEL_ENTRY then Some (handle_get_sel_entry st req resp)
           else invalid)
        else invalid)"

section \<open>Concrete inputs\<close>

text \<open>
  The inputs at which the theorems below are instantiated and the counterexamples are
  evaluated.
\<close>

text \<open>The controller of the supervisor: \<^verbatim>\<open>pid_init(&pid, 3.0, 0.1, 1.5, 65.0)\<close>.\<close>

definition default_pid :: pid_state_t where
  "default_pid = pid_init zero_pid 3 (1/10) (3/2) 65"

text \<open>
  The controller of the supervisor with the integral gain \<^verbatim>\<open>0.077\<close>, that is, the
  \<^verbatim>\<open>double\<close> nearest to 77/1000: \<^verbatim>\<open>pid_init(&pid, 3.0, 0.077, 1.5, 65.0)\<close>.
\<close>

definition ki077_pid :: pid_state_t where
  "ki077_pid = pid_init zero_pid 3 (b64 (77/1000)) (3/2) 65"

text \<open>
  The two data bytes of a signed 16-bit value in big-endian order, from the value
  itself: the two's complement is \<open>t mod 65536\<close>, its high byte comes first.
\<close>

definition int16_be :: "int \<Rightarrow> 8 word list" where
  "int16_be t = [of_int ((t mod 65536) div 256), of_int (t mod 256)]"

text \<open>The state after \<^verbatim>\<open>bmc_state_init\<close> and \<^verbatim>\<open>sensor_init\<close>.\<close>

definition sensors_ready :: bmc_state_t where
  "sensors_ready = snd (sensor_init (snd (bmc_state_init True)) 0)"

text \<open>That state with the value of sensor 0 (\<open>CPU_Temp\<close>) set to \<open>v\<close>.\<close>

definition cpu_temp_state :: "real \<Rightarrow> bmc_state_t" where
  "cpu_temp_state v =
     sensors_ready\<lparr>sensors := (sensors sensors_ready)[0 := (sensors sensors_ready ! 0)\<lparr>sr_value := v\<rparr>]\<rparr>"

text \<open>A request with the given function, command and valid prefix of data bytes.\<close>

definition mk_request :: "8 word \<Rightarrow> 8 word \<Rightarrow> 8 word list \<Rightarrow> ipmi_request_t" where
  "mk_request nf c bs = \<lparr>netfn = nf, cmd = c,
     req_data = take 256 bs @ replicate (256 - length bs) 0,
     req_data_len = of_nat (length bs)\<rparr>"

text \<open>
  The invariant of the event log after \<open>n\<close> appends to an empty log: the count is
  \<open>min n 256\<close>, the next id is \<open>n + 1\<close>, and the live entries carry the last
  \<open>min n 256\<close> ids in order.
\<close>

definition sel_after :: "nat \<Rightarrow> bmc_state_t \<Rightarrow> bool" where
  "sel_after n st \<longleftrightarrow>
     length (sel st) = MAX_SEL_ENTRIES
     \<and> sel_count st = int (min n MAX_SEL_ENTRIES)
     \<and> sel_next_id st = of_nat (Suc n)
     \<and> sel_live_ids st = map of_nat [Suc n - min n MAX_SEL_ENTRIES..<Suc n]"

text \<open>Three hundred Info entries, as the overflow scenario appends them.\<close>

definition info_entries :: "sel_args list" where
  "info_entries = replicate 300 (0, SEL_SEVERITY_INFO, ''Test'', ''entry'')"

text \<open>A file system with no file, where every path can be written.\<close>

definition empty_fs :: filesys where
  "empty_fs = \<lparr>files = (\<lambda>p. None), wdenied = (\<lambda>p. False)\<rparr>"

text \<open>
  Stand-ins for the two library parameters, to instantiate theorems at concrete inputs:
  a digest that prints the first byte of the content, and a generator that counts up
  from the seed.
\<close>

definition head_digest :: "8 word list \<Rightarrow> string" where
  "head_digest bs = (case bs of [] \<Rightarrow> ''empty'' | b # rest \<Rightarrow> decimal (unat b))"

definition counting_prng :: "int \<Rightarrow> nat \<Rightarrow> nat" where
  "counting_prng seed k = nat seed + k"

text \<open>
  The state and the file system after \<^verbatim>\<open>bmc_state_init\<close> and \<^verbatim>\<open>secure_boot_init\<close> on an
  empty, writable file system.
\<close>

definition booted :: "(8 word list \<Rightarrow> string) \<Rightarrow> (int \<Rightarrow> nat \<Rightarrow> nat) \<Rightarrow> bmc_state_t \<times> filesys" where
  "booted H prng = snd (secure_boot_init H prng (snd (bmc_state_init True)) empty_fs 0)"

text \<open>The file system with the file at path \<open>p\<close> removed.\<close>

definition remove_file :: "filesys \<Rightarrow> string \<Rightarrow> filesys" where
  "remove_file fs p = fs\<lparr>files := (files fs)(p := None)\<rparr>"

text \<open>
  \<^verbatim>\<open>secure_boot_init\<close>, then \<^verbatim>\<open>secure_boot_inject_tamper(state, idx)\<close>: the state and
  the file system they leave.
\<close>

definition init_tamper ::
  "(8 word list \<Rightarrow> string) \<Rightarrow> (int \<Rightarrow> nat \<Rightarrow> nat) \<Rightarrow> bmc_state_t \<Rightarrow> filesys \<Rightarrow> int \<Rightarrow> int
     \<Rightarrow> bmc_state_t \<times> filesys" where
  "init_tamper H prng st fs idx now =
    (let r1 = secure_boot_init H prng st fs now;
         r2 = secure_boot_inject_tamper (fst (snd r1)) (snd (snd r1)) idx now
     in snd r2)"

text \<open>The same followed by one \<^verbatim>\<open>secure_boot_verify\<close>: its result and the final state.\<close>

definition init_tamper_verify ::
  "(8 word list \<Rightarrow> string) \<Rightarrow> (int \<Rightarrow> nat \<Rightarrow> nat) \<Rightarrow> bmc_state_t \<Rightarrow> filesys \<Rightarrow> int \<Rightarrow> int
     \<Rightarrow> bool \<times> bmc_state_t" where
  "init_tamper_verify H prng st fs idx now =
    (let sf = init_tamper H prng st fs idx now
     in secure_boot_verify H (snd sf) (fst sf) now)"

text \<open>
  \<^verbatim>\<open>secure_boot_init\<close>, a first \<^verbatim>\<open>secure_boot_verify\<close> (as the supervisor runs it at start),
  then the tampering and a second \<^verbatim>\<open>secure_boot_verify\<close>.
\<close>

definition init_verify_tamper_verify ::
  "(8 word list \<Rightarrow> string) \<Rightarrow> (int \<Rightarrow> nat \<Rightarrow> nat) \<Rightarrow> bmc_state_t \<Rightarrow> filesys \<Rightarrow> int \<Rightarrow> int
     \<Rightarrow> bool \<times> bmc_state_t" where
  "init_verify_tamper_verify H prng st fs idx now =
    (let r1 = secure_boot_init H prng st fs now;
         r2 = secure_boot_verify H (snd (snd r1)) (fst (snd r1)) now;
         r3 = secure_boot_inject_tamper (snd r2) (snd (snd r1)) idx now
     in secure_boot_verify H (snd (snd r3)) (fst (snd r3)) now)"

text \<open>
  One \<^verbatim>\<open>secure_boot_verify\<close> after \<^verbatim>\<open>secure_boot_init\<close> when the blob of image 1
  (\<open>bmc_firmware\<close>) has been removed from the file system.
\<close>

definition verify_without_image1 ::
  "(8 word list \<Rightarrow> string) \<Rightarrow> (int \<Rightarrow> nat \<Rightarrow> nat) \<Rightarrow> bool \<times> bmc_state_t" where
  "verify_without_image1 H prng =
     secure_boot_verify H (remove_file (snd (booted H prng)) (fw_path ''bmc_firmware''))
       (fst (booted H prng)) 0"

section \<open>Properties of the PID controller\<close>

text \<open>
  Claim C9. \<^verbatim>\<open>pid_set_output_limits(pid, min, max)\<close> with \<open>min \<ge> max\<close> changes nothing:
  the controller after the call is the controller before it, so every field, including
  \<open>output_min\<close>, \<open>output_max\<close> and \<open>output\<close>, keeps its value.
\<close>

theorem pid_set_output_limits_rejects:
  "mx \<le> mn \<Longrightarrow> pid_set_output_limits p mn mx = p"
  by (simp add: pid_set_output_limits_def)

theorem pid_set_output_limits_rejects_witness:
  "pid_set_output_limits default_pid 50 50
     = default_pid
   \<and> output_min (pid_set_output_limits default_pid 50 50) = 10"
  using pid_set_output_limits_rejects [of 50 50 default_pid]
  by (simp add: default_pid_def pid_init_def)

lemma pid_compute_fp_exact:
  "pid_compute_fp (\<lambda>x. x) p current_temp dt = pid_compute p current_temp dt"
  by (simp add: pid_compute_fp_def pid_compute_def)

lemma b64_nonneg:
  "0 \<le> x \<Longrightarrow> 0 \<le> b64 x"
proof -
  assume x: "0 \<le> x"
  have r: "0 \<le> round_half_even y" if "0 \<le> y" for y
  proof -
    have "0 \<le> \<lfloor>y\<rfloor>" using that by simp
    then show ?thesis by (simp add: round_half_even_def Let_def)
  qed
  have u: "0 < pow2 e" for e
    by (simp add: pow2_def)
  show ?thesis
  proof (cases "x = 0")
    case True
    then show ?thesis by (simp add: b64_def)
  next
    case False
    then have pos: "0 < x" using x by simp
    have "0 \<le> \<bar>x\<bar> / pow2 (floor_log2 \<bar>x\<bar> - 52)"
      using u [of "floor_log2 \<bar>x\<bar> - 52"] by simp
    then have "0 \<le> real_of_int (round_half_even (\<bar>x\<bar> / pow2 (floor_log2 \<bar>x\<bar> - 52)))"
      using r by simp
    then have "0 \<le> real_of_int (round_half_even (\<bar>x\<bar> / pow2 (floor_log2 \<bar>x\<bar> - 52)))
                  * pow2 (floor_log2 \<bar>x\<bar> - 52)"
      using u [of "floor_log2 \<bar>x\<bar> - 52"] by (simp add: less_imp_le)
    then show ?thesis
      using pos False by (simp add: b64_def Let_def)
  qed
qed

text \<open>The constructor and the setters keep the bounds of a controller ordered.\<close>

lemma pid_bounds_ordered:
  "output_min (pid_init p a b c d) < output_max (pid_init p a b c d)"
  "output_min p < output_max p \<Longrightarrow>
     output_min (pid_set_output_limits p mn mx) < output_max (pid_set_output_limits p mn mx)"
  "output_min (snd (pid_compute_fp rnd p t dt)) = output_min p"
  "output_max (snd (pid_compute_fp rnd p t dt)) = output_max p"
  "output_min (pid_reset p) = output_min p" "output_max (pid_reset p) = output_max p"
  by (simp_all add: pid_init_def pid_set_output_limits_def pid_compute_fp_def pid_reset_def Let_def)

lemma ki077_values:
  "ki ki077_pid = 5548434740920451 / 72057594037927936"
  "output_min ki077_pid = 10" "output_max ki077_pid = 100"
  "integral (snd (pid_compute_fp b64 ki077_pid 1000 2)) = 5140573844147533 / 4398046511104"
  by code_simp+

text \<open>
  Claim C3, as stated: for every call of \<^verbatim>\<open>pid_compute\<close> with \<open>ki > 0\<close>, after the call
  \<open>|ki * integral| \<le> output_max - output_min\<close>. In the arithmetic of the code it fails
  in the last bit. With \<^verbatim>\<open>ki = 0.077\<close> and the bounds 10 and 100 of \<^verbatim>\<open>pid_init\<close>, the call
  \<^verbatim>\<open>pid_compute(&pid, 1000.0, 2.0)\<close> computes the limit
  \<open>90 / ki = 5140573844147533 / 2 ^ 42\<close> (about 1168.831168831169), rounded up from
  the exact quotient, and clamps the integral 1870 to it; the product of the stored
  \<open>ki\<close> and \<open>integral\<close> is then greater than 90, exactly and also when it is rounded to
  a \<^verbatim>\<open>double\<close> (90.00000000000001).
\<close>

theorem pid_integral_bound_rounding_counterexample:
  "0 < ki ki077_pid \<and> output_min ki077_pid < output_max ki077_pid
   \<and> integral (snd (pid_compute_fp b64 ki077_pid 1000 2)) = 5140573844147533 / 4398046511104
   \<and> \<not> \<bar>ki ki077_pid * integral (snd (pid_compute_fp b64 ki077_pid 1000 2))\<bar>
         \<le> output_max ki077_pid - output_min ki077_pid
   \<and> \<not> b64 \<bar>ki ki077_pid * integral (snd (pid_compute_fp b64 ki077_pid 1000 2))\<bar>
         \<le> output_max ki077_pid - output_min ki077_pid"
proof -
  have "b64 \<bar>(5548434740920451 / 72057594037927936) * (5140573844147533 / 4398046511104)\<bar>
          = 6333186975989761 / 70368744177664"
    by code_simp
  then show ?thesis
    by (simp add: ki077_values)
qed

text \<open>
  Claim C3, amended: for every call of \<^verbatim>\<open>pid_compute\<close> with \<open>ki > 0\<close> on a controller
  whose bounds are ordered (\<open>output_min \<le> output_max\<close>; \<^verbatim>\<open>pid_init\<close> and
  \<^verbatim>\<open>pid_set_output_limits\<close> keep \<open>output_min < output_max\<close>), for any temperature and
  any \<open>dt\<close>, the integral after the call lies within the limit that the code computes:
  \<open>|integral| \<le> L\<close>, where \<open>L\<close> is the rounded quotient
  \<open>(output_max - output_min) / ki\<close>. The product \<open>ki * integral\<close> is bounded by
  \<open>output_max - output_min\<close> up to the rounding of the subtraction and of the division:
  when each of them rounds up by at most the relative error \<open>eps\<close> (\<open>2 ^ -53\<close> for
  binary64 on its normal range), \<open>|ki * integral| \<le> (output_max - output_min) * (1 + eps)\<^sup>2\<close>.
  This holds for every rounding \<open>rnd\<close> that maps no number \<open>x \<ge> 0\<close> below zero; in
  exact arithmetic (\<open>eps = 0\<close>) it is the bound of the claim.
\<close>

theorem pid_integral_within_limit:
  assumes "ki p > 0" and "output_min p \<le> output_max p" and "\<forall>x. 0 \<le> x \<longrightarrow> 0 \<le> rnd x"
  shows "\<bar>integral (snd (pid_compute_fp rnd p current_temp dt))\<bar>
           \<le> rnd (rnd (output_max p - output_min p) / ki p)
       \<and> (0 \<le> eps
            \<and> rnd (output_max p - output_min p) \<le> (output_max p - output_min p) * (1 + eps)
            \<and> rnd (rnd (output_max p - output_min p) / ki p)
                \<le> rnd (output_max p - output_min p) / ki p * (1 + eps)
          \<longrightarrow> \<bar>ki p * integral (snd (pid_compute_fp rnd p current_temp dt))\<bar>
                \<le> (output_max p - output_min p) * (1 + eps)\<^sup>2)"
proof -
  define D where "D = output_max p - output_min p"
  define D' where "D' = rnd D"
  define L where "L = rnd (D' / ki p)"
  define I where "I = integral (snd (pid_compute_fp rnd p current_temp dt))"
  have D0: "0 \<le> D" using assms(2) by (simp add: D_def)
  then have D'0: "0 \<le> D'" using assms(3) by (simp add: D'_def)
  then have "0 \<le> D' / ki p" using assms(1) by simp
  then have L0: "0 \<le> L" using assms(3) by (simp add: L_def)
  have "- L \<le> I \<and> I \<le> L"
    using assms(1) L0 unfolding I_def L_def D'_def D_def pid_compute_fp_def Let_def
    by (simp; linarith)
  then have IL: "\<bar>I\<bar> \<le> L" by linarith
  have second: "\<bar>ki p * I\<bar> \<le> D * (1 + eps)\<^sup>2"
    if e: "0 \<le> eps" and r1: "D' \<le> D * (1 + eps)" and r2: "L \<le> D' / ki p * (1 + eps)"
  proof -
    have "\<bar>ki p * I\<bar> = ki p * \<bar>I\<bar>"
      using assms(1) by (simp add: abs_mult)
    also have "\<dots> \<le> ki p * L"
      using IL assms(1) by (simp add: mult_left_mono)
    also have "\<dots> \<le> D' * (1 + eps)"
    proof -
      have "L \<le> D' * (1 + eps) / ki p"
        using r2 by simp
      then have "L * ki p \<le> D' * (1 + eps)"
        using assms(1) by (simp add: pos_le_divide_eq)
      then show ?thesis
        by (simp add: mult.commute)
    qed
    also have "\<dots> \<le> D * (1 + eps) * (1 + eps)"
      using r1 e by (simp add: mult_right_mono)
    also have "\<dots> = D * (1 + eps)\<^sup>2"
      by (simp add: power2_eq_square)
    finally show ?thesis .
  qed
  show ?thesis
    using IL second unfolding I_def L_def D'_def D_def by blast
qed

theorem pid_integral_within_limit_witness:
  "0 < ki ki077_pid \<and> output_min ki077_pid \<le> output_max ki077_pid
   \<and> \<bar>integral (snd (pid_compute_fp b64 ki077_pid 1000 2))\<bar>
        \<le> b64 (b64 (output_max ki077_pid - output_min ki077_pid) / ki ki077_pid)
   \<and> \<bar>ki ki077_pid * integral (snd (pid_compute_fp b64 ki077_pid 1000 2))\<bar>
        \<le> (output_max ki077_pid - output_min ki077_pid) * (1 + 1 / 2 ^ 53)\<^sup>2"
proof -
  have k: "0 < ki ki077_pid" and o: "output_min ki077_pid \<le> output_max ki077_pid"
    by (simp_all add: ki077_values)
  have n: "\<forall>x. 0 \<le> x \<longrightarrow> 0 \<le> b64 x"
    by (simp add: b64_nonneg)
  have h: "(0::real) \<le> 1 / 2 ^ 53
      \<and> b64 (output_max ki077_pid - output_min ki077_pid)
          \<le> (output_max ki077_pid - output_min ki077_pid) * (1 + 1 / 2 ^ 53)
      \<and> b64 (b64 (output_max ki077_pid - output_min ki077_pid) / ki ki077_pid)
          \<le> b64 (output_max ki077_pid - output_min ki077_pid) / ki ki077_pid * (1 + 1 / 2 ^ 53)"
    by code_simp
  show ?thesis
    using k o h pid_integral_within_limit [OF k o n, of 1000 2 "1 / 2 ^ 53"]
    by blast
qed

lemma pid_compute_after_reset:
  assumes "output_min p \<le> 40" and "40 \<le> output_max p"
  shows "pid_compute (pid_reset p) (setpoint p) dt
           = (40, p\<lparr>integral := 0, prev_error := 0, pid_output := 40\<rparr>)"
proof -
  have L: "0 < ki p \<Longrightarrow> 0 \<le> (output_max p - output_min p) / ki p"
    using assms by simp
  have nL: "0 < ki p \<Longrightarrow> \<not> (output_max p - output_min p) / ki p < 0"
    using L by linarith
  show ?thesis
    using assms nL by (cases "0 < ki p") (simp_all add: pid_compute_def pid_reset_def Let_def)
qed

text \<open>
  Claim C7. After \<^verbatim>\<open>pid_reset\<close>, one \<^verbatim>\<open>pid_compute\<close> at the setpoint, with any \<open>dt\<close>,
  returns and stores exactly the base offset 40 whenever \<open>output_min \<le> 40 \<le> output_max\<close>;
  in particular it does so for a controller that \<^verbatim>\<open>pid_init\<close> has set up, whose bounds
  are the default ones, 10 and 100.
\<close>

theorem pid_reset_then_compute_at_setpoint:
  "(output_min p \<le> 40 \<and> 40 \<le> output_max p \<longrightarrow>
      fst (pid_compute (pid_reset p) (setpoint p) dt) = 40
      \<and> pid_output (snd (pid_compute (pid_reset p) (setpoint p) dt)) = 40)
   \<and> fst (pid_compute (pid_reset (pid_init p0 kp' ki' kd' sp)) sp dt) = 40"
proof -
  have "setpoint (pid_init p0 kp' ki' kd' sp) = sp"
    and "output_min (pid_init p0 kp' ki' kd' sp) \<le> 40"
    and "40 \<le> output_max (pid_init p0 kp' ki' kd' sp)"
    by (simp_all add: pid_init_def)
  then have "fst (pid_compute (pid_reset (pid_init p0 kp' ki' kd' sp)) sp dt) = 40"
    using pid_compute_after_reset [of "pid_init p0 kp' ki' kd' sp" dt] by simp
  then show ?thesis
    by (simp add: pid_compute_after_reset)
qed

theorem pid_reset_then_compute_at_setpoint_witness:
  "output_min (pid_set_output_limits default_pid 20 80) \<le> 40 \<and>
   40 \<le> output_max (pid_set_output_limits default_pid 20 80) \<and>
   fst (pid_compute (pid_reset (pid_set_output_limits default_pid 20 80)) 65 0) = 40 \<and>
   fst (pid_compute (pid_reset default_pid) 65 2) = 40"
  using pid_reset_then_compute_at_setpoint [of "pid_set_output_limits default_pid 20 80" 0]
    pid_reset_then_compute_at_setpoint [of default_pid 2 zero_pid 3 "1/10" "3/2" 65]
  by (simp add: pid_set_output_limits_def default_pid_def pid_init_def)

section \<open>Properties of the sensor engine\<close>

lemma sel_add_entry_sensors [simp]:
  "sensors (snd (sel_add_entry st now sev src msg)) = sensors st"
  by (simp add: sel_add_entry_def Let_def)

lemma sel_add_entry_sensor_count [simp]:
  "sensor_count (snd (sel_add_entry st now sev src msg)) = sensor_count st"
  by (simp add: sel_add_entry_def Let_def)

lemma evaluate_status_eq_spec: "evaluate_status s = status_by_spec s"
  by (simp add: evaluate_status_def status_by_spec_def)

lemma evaluate_status_not_absent: "evaluate_status s \<noteq> SENSOR_STATUS_ABSENT"
  by (simp add: evaluate_status_def)

lemma evaluate_status_ignores_status [simp]:
  "evaluate_status (s\<lparr>sr_status := x\<rparr>) = evaluate_status s"
  by (simp add: evaluate_status_def)

lemma sensor_poll_step_sensors:
  "sensors (sensor_poll_step d now z f i st) =
     (sensors st)[i := (sensor_simulate d (z i) (default_sensors ! i) (sensors st ! i))
                         \<lparr>last_updated := now,
                          sr_status := evaluate_status
                            ((sensor_simulate d (z i) (default_sensors ! i) (sensors st ! i))
                               \<lparr>last_updated := now\<rparr>)\<rparr>]"
  unfolding sensor_poll_step_def Let_def by (simp del: fun_upd_apply)

lemma sensor_poll_step_length [simp]:
  "length (sensors (sensor_poll_step d now z f i st)) = length (sensors st)"
  by (simp add: sensor_poll_step_sensors)

lemma sensor_poll_step_other:
  "j \<noteq> i \<Longrightarrow> sensors (sensor_poll_step d now z f i st) ! j = sensors st ! j"
  by (simp add: sensor_poll_step_sensors)

lemma sensor_poll_step_self:
  "i < length (sensors st) \<Longrightarrow>
   sr_status (sensors (sensor_poll_step d now z f i st) ! i)
     = evaluate_status (sensors (sensor_poll_step d now z f i st) ! i)"
  by (simp add: sensor_poll_step_sensors)

lemma sensor_poll_fold_length [simp]:
  "length (sensors (fold (sensor_poll_step d now z f) [0..<n] st)) = length (sensors st)"
  by (induction n) simp_all

lemma sensor_poll_fold_status:
  "i < n \<Longrightarrow> n \<le> length (sensors st) \<Longrightarrow>
   sr_status (sensors (fold (sensor_poll_step d now z f) [0..<n] st) ! i)
     = evaluate_status (sensors (fold (sensor_poll_step d now z f) [0..<n] st) ! i)"
proof (induction n)
  case 0
  then show ?case by simp
next
  case (Suc n)
  show ?case
  proof (cases "i = n")
    case True
    then show ?thesis using Suc.prems by (simp add: sensor_poll_step_self)
  next
    case False
    then have "i < n" using Suc.prems by simp
    then show ?thesis using Suc False by (simp add: sensor_poll_step_other)
  qed
qed

text \<open>
  Claim C6. After a poll, the status of every sensor below \<open>sensor_count\<close> is the
  classification of its new value: a fan sensor is Critical iff the value is below
  \<open>min_valid\<close> or above \<open>max_critical\<close>, else Warning iff it is above \<open>max_warning\<close>,
  else Ok; any other sensor is Critical iff the value is at least \<open>max_critical\<close>, else
  Warning iff it is at least \<open>max_warning\<close> or below \<open>min_valid\<close>, else Ok
  (\<open>status_by_spec\<close>); and \<open>evaluate_status\<close> computes that classification.
\<close>

theorem sensor_poll_classifies:
  assumes "state_wf st" and "int i < sensor_count st"
  shows "sr_status (sensors (sensor_poll st fan_duty now z fmt) ! i)
           = status_by_spec (sensors (sensor_poll st fan_duty now z fmt) ! i)
       \<and> evaluate_status r = status_by_spec r"
proof -
  have "i < nat (sensor_count st)" using assms by simp
  moreover have "nat (sensor_count st) \<le> length (sensors st)"
    using assms by (auto simp: state_wf_def)
  ultimately show ?thesis
    unfolding sensor_poll_def
    by (simp only: sensor_poll_fold_status evaluate_status_eq_spec simp_thms)
qed


theorem sensor_poll_classifies_witness:
  "state_wf (snd (sensor_init (snd (bmc_state_init True)) 0)) \<and>
   int 6 < sensor_count (snd (sensor_init (snd (bmc_state_init True)) 0)) \<and>
   sr_status (sensors (sensor_poll (snd (sensor_init (snd (bmc_state_init True)) 0)) 30 1 (\<lambda>k. 0) (\<lambda>v. [])) ! 6)
     = status_by_spec (sensors (sensor_poll (snd (sensor_init (snd (bmc_state_init True)) 0)) 30 1 (\<lambda>k. 0) (\<lambda>v. [])) ! 6)"
proof -
  have wf: "state_wf (snd (sensor_init (snd (bmc_state_init True)) 0))"
    by code_simp
  have cnt: "int 6 < sensor_count (snd (sensor_init (snd (bmc_state_init True)) 0))"
    by code_simp
  show ?thesis
    using wf cnt sensor_poll_classifies [OF wf cnt, of 30 1 "\<lambda>k. 0" "\<lambda>v. []"] by simp
qed

lemma sensor_init_step_sensors:
  "sensors (sensor_init_step now i st) =
     (sensors st)[i := (sensors st ! i)\<lparr>sr_name := take 63 (cfg_name (default_sensors ! i)),
        sr_type := cfg_type (default_sensors ! i), sr_value := base_value (default_sensors ! i),
        min_valid := cfg_min_valid (default_sensors ! i),
        max_warning := cfg_max_warning (default_sensors ! i),
        max_critical := cfg_max_critical (default_sensors ! i),
        sr_status := SENSOR_STATUS_OK, last_updated := now\<rparr>]"
  by (simp add: sensor_init_step_def Let_def)

lemma sensor_init_fold_length [simp]:
  "length (sensors (fold (sensor_init_step now) [0..<n] st)) = length (sensors st)"
  by (induction n) (simp_all add: sensor_init_step_sensors)

lemma sensor_init_fold_status:
  "i < n \<Longrightarrow> n \<le> length (sensors st) \<Longrightarrow>
   sr_status (sensors (fold (sensor_init_step now) [0..<n] st) ! i) = SENSOR_STATUS_OK"
proof (induction n)
  case 0
  then show ?case by simp
next
  case (Suc n)
  show ?case
  proof (cases "i = n")
    case True
    then show ?thesis using Suc.prems by (simp add: sensor_init_step_sensors)
  next
    case False
    then have "i < n" using Suc.prems by simp
    then show ?thesis using Suc False by (simp add: sensor_init_step_sensors)
  qed
qed

lemma sensor_init_all_ok:
  assumes "length (sensors st) = MAX_SENSORS"
  shows "list_all (\<lambda>s. sr_status s = SENSOR_STATUS_OK) (sensors (snd (sensor_init st now)))"
proof -
  have len: "length (sensors (snd (sensor_init st now))) = 8"
    using assms by (simp add: sensor_init_def Let_def MAX_SENSORS_def)
  have "\<And>i. i < 8 \<Longrightarrow> sr_status (sensors (snd (sensor_init st now)) ! i) = SENSOR_STATUS_OK"
    using assms
    by (simp add: sensor_init_def Let_def MAX_SENSORS_def NUM_DEFAULT_SENSORS_def
        default_sensors_def sensor_init_fold_status del: upt_rec_numeral upt.simps)
  then show ?thesis using len by (simp add: list_all_length)
qed

lemma sensor_poll_step_no_absent:
  assumes "list_all (\<lambda>s. sr_status s \<noteq> SENSOR_STATUS_ABSENT) (sensors st)"
  shows "list_all (\<lambda>s. sr_status s \<noteq> SENSOR_STATUS_ABSENT) (sensors (sensor_poll_step d now z f i st))"
proof -
  have "\<And>v. sr_status v \<noteq> SENSOR_STATUS_ABSENT \<Longrightarrow>
          list_all (\<lambda>s. sr_status s \<noteq> SENSOR_STATUS_ABSENT) ((sensors st)[i := v])"
    using assms set_update_subset_insert [of "sensors st" i]
    by (auto simp: list_all_iff)
  then show ?thesis
    by (simp add: sensor_poll_step_sensors evaluate_status_not_absent)
qed

lemma sensor_poll_no_absent:
  assumes "list_all (\<lambda>s. sr_status s \<noteq> SENSOR_STATUS_ABSENT) (sensors st)"
  shows "list_all (\<lambda>s. sr_status s \<noteq> SENSOR_STATUS_ABSENT) (sensors (sensor_poll st d now z f))"
proof -
  have "list_all (\<lambda>s. sr_status s \<noteq> SENSOR_STATUS_ABSENT)
          (sensors (fold (sensor_poll_step d now z f) [0..<n] st))" for n
    using assms by (induction n) (simp_all add: sensor_poll_step_no_absent)
  then show ?thesis by (simp add: sensor_poll_def)
qed

lemma sensor_poll_all_no_absent:
  "list_all (\<lambda>s. sr_status s \<noteq> SENSOR_STATUS_ABSENT) (sensors st) \<Longrightarrow>
   list_all (\<lambda>s. sr_status s \<noteq> SENSOR_STATUS_ABSENT) (sensors (sensor_poll_all f ps st))"
  unfolding sensor_poll_all_def
  by (induction ps arbitrary: st) (auto simp: sensor_poll_args_def sensor_poll_no_absent)

text \<open>
  Claim C8. The status Absent is unreachable: \<^verbatim>\<open>sensor_init\<close> sets the status of every
  sensor to Ok, \<open>evaluate_status\<close> only returns Ok, Warning or Critical, and after
  \<^verbatim>\<open>sensor_init\<close> and any sequence of polls no sensor of the state has status Absent.
\<close>

theorem absent_unreachable:
  assumes "length (sensors st) = MAX_SENSORS"
  shows "list_all (\<lambda>s. sr_status s = SENSOR_STATUS_OK) (sensors (snd (sensor_init st now)))
       \<and> evaluate_status r \<in> {SENSOR_STATUS_OK, SENSOR_STATUS_WARNING, SENSOR_STATUS_CRITICAL}
       \<and> list_all (\<lambda>s. sr_status s \<noteq> SENSOR_STATUS_ABSENT)
           (sensors (sensor_poll_all fmt ps (snd (sensor_init st now))))"
proof -
  have ok: "list_all (\<lambda>s. sr_status s = SENSOR_STATUS_OK) (sensors (snd (sensor_init st now)))"
    using assms by (rule sensor_init_all_ok)
  then have "list_all (\<lambda>s. sr_status s \<noteq> SENSOR_STATUS_ABSENT) (sensors (snd (sensor_init st now)))"
    by (simp add: list_all_iff)
  then have "list_all (\<lambda>s. sr_status s \<noteq> SENSOR_STATUS_ABSENT)
           (sensors (sensor_poll_all fmt ps (snd (sensor_init st now))))"
    by (rule sensor_poll_all_no_absent)
  moreover have "evaluate_status r \<in> {SENSOR_STATUS_OK, SENSOR_STATUS_WARNING, SENSOR_STATUS_CRITICAL}"
    by (simp add: evaluate_status_def)
  ultimately show ?thesis using ok by simp
qed


theorem absent_unreachable_witness:
  "length (sensors (snd (bmc_state_init True))) = MAX_SENSORS \<and>
   length (sensors (sensor_poll_all (\<lambda>v. []) [(30, 1, \<lambda>k. 0), (100, 2, \<lambda>k. 1)]
       (snd (sensor_init (snd (bmc_state_init True)) 0)))) = 8 \<and>
   list_all (\<lambda>s. sr_status s \<noteq> SENSOR_STATUS_ABSENT)
     (sensors (sensor_poll_all (\<lambda>v. []) [(30, 1, \<lambda>k. 0), (100, 2, \<lambda>k. 1)]
       (snd (sensor_init (snd (bmc_state_init True)) 0))))"
proof -
  have len: "length (sensors (snd (bmc_state_init True))) = MAX_SENSORS"
    by (simp add: bmc_state_init_def zero_state_def)
  have len': "length (sensors (sensor_poll_all (\<lambda>v. []) [(30, 1, \<lambda>k. 0), (100, 2, \<lambda>k. 1)]
       (snd (sensor_init (snd (bmc_state_init True)) 0)))) = 8"
    using len
    by (simp add: sensor_poll_all_def sensor_poll_args_def sensor_poll_def sensor_init_def
        Let_def MAX_SENSORS_def)
  show ?thesis
    using len len' absent_unreachable [OF len, where now = 0 and fmt = "\<lambda>v. []"
        and ps = "[(30, 1, \<lambda>k. 0), (100, 2, \<lambda>k. 1)]"]
    by simp
qed

section \<open>Properties of the IPMI dispatcher\<close>

lemma low_byte_of_int16:
  "ucast ((word_of_int t :: 16 word) AND 0xFF) = (of_int (t mod 256) :: 8 word)"
proof -
  have m: "(0xFF :: 16 word) = mask 8"
    by (simp add: mask_eq_exp_minus_1)
  have "(ucast ((word_of_int t :: 16 word) AND 0xFF) :: 8 word) = word_of_int t"
    unfolding m by (rule bit_word_eqI) (auto simp: bit_simps)
  also have "\<dots> = of_int (t mod 256)"
    by (rule bit_word_eqI) (auto simp: bit_simps take_bit_eq_mod [of 8 t, simplified, symmetric])
  finally show ?thesis .
qed

lemma high_byte_of_int16:
  "ucast (drop_bit 8 (word_of_int t :: 16 word)) = (of_int ((t mod 65536) div 256) :: 8 word)"
proof -
  have "(t mod 65536) div 256 = drop_bit 8 (take_bit 16 t)"
    by (simp add: take_bit_eq_mod drop_bit_eq_div)
  then show ?thesis
    by (simp only:) (rule bit_word_eqI, auto simp: bit_simps)
qed

lemma handle_get_sensor_reading_ok:
  assumes "1 \<le> req_data_len req"
    and "uint (req_data req ! 0) < sensor_count st"
    and "- 32768 \<le> trunc_toward_zero (sr_value (sensors st ! unat (req_data req ! 0)) * 256)"
    and "trunc_toward_zero (sr_value (sensors st ! unat (req_data req ! 0)) * 256) \<le> 32767"
  shows "handle_get_sensor_reading st req zero_response =
     Some (st, \<lparr>completion_code = 0,
       resp_data = int16_be (trunc_toward_zero (sr_value (sensors st ! unat (req_data req ! 0)) * 256))
         @ [sensor_status_code (sr_status (sensors st ! unat (req_data req ! 0))),
            sensor_type_code (sr_type (sensors st ! unat (req_data req ! 0)))]
         @ replicate 252 0,
       resp_data_len = 4\<rparr>)"
proof -
  have len: "\<not> req_data_len req < 1"
    using assms(1) by (simp add: word_le_nat_alt word_less_nat_alt)
  have "replicate (4 + 252) (0 :: 8 word) = replicate 4 0 @ replicate 252 0"
    by (rule replicate_add)
  moreover have "replicate 4 (0 :: 8 word) = [0, 0, 0, 0]"
    by (simp add: numeral_Bit0 replicate_add)
  ultimately have rep: "replicate 256 (0 :: 8 word) = 0 # 0 # 0 # 0 # replicate 252 0"
    by simp
  have upd: "(replicate 256 (0 :: 8 word))[0 := a, Suc 0 := b, 2 := c, 3 := d]
               = a # b # c # d # replicate 252 0"
    for a b c d :: "8 word"
    unfolding rep by (simp add: numeral_2_eq_2 numeral_3_eq_3)
  show ?thesis
    using assms(2-4) len
    by (simp add: handle_get_sensor_reading_def double_to_int16_def Let_def zero_response_def
        IPMI_CC_OK_def int16_be_def low_byte_of_int16 high_byte_of_int16 upd)
qed

lemma handle_get_sensor_reading_bad_index:
  "sensor_count st \<le> uint (req_data req ! 0) \<Longrightarrow>
   handle_get_sensor_reading st req resp = Some (st, resp\<lparr>completion_code := 0xC9\<rparr>)"
  by (simp add: handle_get_sensor_reading_def Let_def IPMI_CC_INVALID_PARAM_def)

lemma dispatch_get_sensor_reading:
  "netfn req = 0x04 \<Longrightarrow> cmd req = 0x2D \<Longrightarrow>
   ipmi_handle_command st req now = handle_get_sensor_reading st req zero_response"
  by (simp add: ipmi_handle_command_def Let_def IPMI_NETFN_APP_def IPMI_NETFN_SENSOR_def
      IPMI_CMD_GET_SENSOR_READING_def)

text \<open>
  Claim C5, as stated: the data bytes 0 and 1 of a Get Sensor Reading response are the
  big-endian signed 16-bit value \<open>round(value * 256)\<close>. With \<open>CPU_Temp = 55 + 3/1024\<close>
  the product is \<open>14080.75\<close>: the response carries \<open>0x37 0x00\<close> (14080, the fraction
  cut off), while the rounded value 14081 would be \<open>0x37 0x01\<close>.
\<close>

theorem get_sensor_reading_rounds_counterexample:
  "ipmi_handle_command (cpu_temp_state (56323/1024)) (mk_request 0x04 0x2D [0]) 0 \<noteq> None \<and>
   completion_code (snd (the (ipmi_handle_command (cpu_temp_state (56323/1024))
       (mk_request 0x04 0x2D [0]) 0))) = 0x00 \<and>
   take 2 (resp_data (snd (the (ipmi_handle_command (cpu_temp_state (56323/1024))
       (mk_request 0x04 0x2D [0]) 0)))) = [0x37, 0x00] \<and>
   int16_be (round (sr_value (sensors (cpu_temp_state (56323/1024)) ! 0) * 256)) = [0x37, 0x01]"
proof -
  have v: "sr_value (sensors (cpu_temp_state (56323/1024)) ! 0) = 56323/1024"
    by (simp add: cpu_temp_state_def sensors_ready_def sensor_init_def Let_def
        bmc_state_init_def zero_state_def MAX_SENSORS_def)
  have c: "sensor_count (cpu_temp_state (56323/1024)) = 8"
    by (simp add: cpu_temp_state_def sensors_ready_def, code_simp)
  have r: "req_data (mk_request 0x04 0x2D [0]) ! 0 = 0" "req_data_len (mk_request 0x04 0x2D [0]) = 1"
    "netfn (mk_request 0x04 0x2D [0]) = 0x04" "cmd (mk_request 0x04 0x2D [0]) = 0x2D"
    by (simp_all add: mk_request_def)
  have t: "trunc_toward_zero (56323 / 4) = 14080"
    by (simp add: trunc_toward_zero_def)
  have rd: "round (56323 / 4 :: real) = 14081"
    by (simp add: round_def)
  have "ipmi_handle_command (cpu_temp_state (56323/1024)) (mk_request 0x04 0x2D [0]) 0
        = Some (cpu_temp_state (56323/1024), \<lparr>completion_code = 0,
            resp_data = int16_be 14080 @
              [sensor_status_code (sr_status (sensors (cpu_temp_state (56323/1024)) ! 0)),
               sensor_type_code (sr_type (sensors (cpu_temp_state (56323/1024)) ! 0))]
              @ replicate 252 0,
            resp_data_len = 4\<rparr>)"
    using handle_get_sensor_reading_ok [of "mk_request 0x04 0x2D [0]" "cpu_temp_state (56323/1024)"]
    by (simp add: dispatch_get_sensor_reading r v c t)
  then show ?thesis
    by (simp add: v rd int16_be_def)
qed

text \<open>
  Claim C5, amended: for a Get Sensor Reading request (netfn \<open>0x04\<close>, cmd \<open>0x2D\<close>) with
  \<open>data_len \<ge> 1\<close> and \<open>data[0]\<close> a valid sensor index, where \<open>value * 256\<close> with its
  fraction cut off (truncation toward zero, not rounding) fits a signed 16-bit integer,
  the response has completion code \<open>0x00\<close>, data bytes 0 and 1 are that integer in
  big-endian order, byte 2 is the status, byte 3 the type and \<open>data_len\<close> is 4; with
  \<open>data[0]\<close> out of range the completion code is \<open>0xC9\<close>. The state is unchanged.
\<close>

theorem get_sensor_reading_response:
  assumes "state_wf st" and "request_wf req" and "netfn req = 0x04" and "cmd req = 0x2D"
  shows "(1 \<le> req_data_len req \<and> uint (req_data req ! 0) < sensor_count st
          \<and> - 32768 \<le> trunc_toward_zero (sr_value (sensors st ! unat (req_data req ! 0)) * 256)
          \<and> trunc_toward_zero (sr_value (sensors st ! unat (req_data req ! 0)) * 256) \<le> 32767
          \<longrightarrow> ipmi_handle_command st req now =
                Some (st, \<lparr>completion_code = 0x00,
                  resp_data =
                    int16_be (trunc_toward_zero (sr_value (sensors st ! unat (req_data req ! 0)) * 256))
                    @ [sensor_status_code (sr_status (sensors st ! unat (req_data req ! 0))),
                       sensor_type_code (sr_type (sensors st ! unat (req_data req ! 0)))]
                    @ replicate 252 0,
                  resp_data_len = 4\<rparr>))
       \<and> (sensor_count st \<le> uint (req_data req ! 0)
          \<longrightarrow> ipmi_handle_command st req now
                = Some (st, zero_response\<lparr>completion_code := 0xC9\<rparr>))"
  using assms(3,4)
  by (simp add: dispatch_get_sensor_reading handle_get_sensor_reading_ok
      handle_get_sensor_reading_bad_index)

theorem get_sensor_reading_response_witness:
  "ipmi_handle_command (cpu_temp_state 55) (mk_request 0x04 0x2D [0]) 0
     = Some (cpu_temp_state 55,
         \<lparr>completion_code = 0x00, resp_data = [0x37, 0x00, 0x00, 0x00] @ replicate 252 0,
          resp_data_len = 4\<rparr>)
   \<and> ipmi_handle_command (cpu_temp_state 55) (mk_request 0x04 0x2D [8]) 0
     = Some (cpu_temp_state 55, zero_response\<lparr>completion_code := 0xC9\<rparr>)"
proof -
  have wf: "state_wf (cpu_temp_state 55)"
    by code_simp
  have c: "sensor_count (cpu_temp_state 55) = 8"
    by (simp add: cpu_temp_state_def sensors_ready_def, code_simp)
  have rq: "request_wf (mk_request 0x04 0x2D [k])" "netfn (mk_request 0x04 0x2D [k]) = 0x04"
    "cmd (mk_request 0x04 0x2D [k]) = 0x2D" "req_data (mk_request 0x04 0x2D [k]) ! 0 = k"
    "req_data_len (mk_request 0x04 0x2D [k]) = 1" for k
    by (simp_all add: mk_request_def request_wf_def)
  have s0: "sensors (cpu_temp_state 55) ! 0
      = \<lparr>sr_name = ''CPU_Temp'', sr_type = SENSOR_TYPE_TEMPERATURE, sr_value = 55,
         min_valid = 10, max_warning = 75, max_critical = 90, sr_status = SENSOR_STATUS_OK,
         last_updated = 0\<rparr>"
    by code_simp
  have t: "trunc_toward_zero 14080 = 14080"
    by (simp add: trunc_toward_zero_def)
  show ?thesis
    using get_sensor_reading_response [OF wf rq(1-3), of 0 0]
      get_sensor_reading_response [OF wf rq(1-3), of 8 0]
    by (simp add: rq c s0 t int16_be_def sensor_status_code_def sensor_type_code_def)
qed

lemma dispatch_set_fan_duty:
  "netfn req = 0x04 \<Longrightarrow> cmd req = 0x30 \<Longrightarrow>
   ipmi_handle_command st req now = Some (handle_set_fan_duty st req zero_response now)"
  by (simp add: ipmi_handle_command_def Let_def IPMI_NETFN_APP_def IPMI_NETFN_SENSOR_def
      IPMI_CMD_GET_SENSOR_READING_def IPMI_CMD_SET_FAN_DUTY_def)

lemma dispatch_get_sel_entry:
  "netfn req = 0x0A \<Longrightarrow> cmd req = 0x43 \<Longrightarrow>
   ipmi_handle_command st req now = Some (handle_get_sel_entry st req zero_response)"
  by (simp add: ipmi_handle_command_def Let_def IPMI_NETFN_APP_def IPMI_NETFN_SENSOR_def
      IPMI_NETFN_STORAGE_def IPMI_CMD_GET_SEL_ENTRY_def)

text \<open>
  Claim C10. A request shorter than the parameters of its handler is rejected with
  completion code \<open>0xC9\<close> and the state is unchanged: Get Sensor Reading and Set Fan
  Duty with \<open>data_len < 1\<close>, Get SEL Entry with \<open>data_len < 2\<close>; the handler changes
  nothing but the completion code of the response, and the dispatcher returns the
  cleared response with that code.
\<close>

theorem short_request_rejected:
  "(req_data_len req < 1 \<longrightarrow>
      handle_get_sensor_reading st req resp = Some (st, resp\<lparr>completion_code := 0xC9\<rparr>)
      \<and> handle_set_fan_duty st req resp now = (st, resp\<lparr>completion_code := 0xC9\<rparr>)
      \<and> (netfn req = 0x04 \<and> (cmd req = 0x2D \<or> cmd req = 0x30) \<longrightarrow>
           ipmi_handle_command st req now = Some (st, zero_response\<lparr>completion_code := 0xC9\<rparr>)))
   \<and> (req_data_len req < 2 \<longrightarrow>
      handle_get_sel_entry st req resp = (st, resp\<lparr>completion_code := 0xC9\<rparr>)
      \<and> (netfn req = 0x0A \<and> cmd req = 0x43 \<longrightarrow>
           ipmi_handle_command st req now = Some (st, zero_response\<lparr>completion_code := 0xC9\<rparr>)))"
proof -
  have a: "handle_get_sensor_reading st req r = Some (st, r\<lparr>completion_code := 0xC9\<rparr>)"
    if "req_data_len req < 1" for r
    using that by (simp add: handle_get_sensor_reading_def IPMI_CC_INVALID_PARAM_def)
  have b: "handle_set_fan_duty st req r now = (st, r\<lparr>completion_code := 0xC9\<rparr>)"
    if "req_data_len req < 1" for r
    using that by (simp add: handle_set_fan_duty_def IPMI_CC_INVALID_PARAM_def)
  have c: "handle_get_sel_entry st req r = (st, r\<lparr>completion_code := 0xC9\<rparr>)"
    if "req_data_len req < 2" for r
    using that by (simp add: handle_get_sel_entry_def IPMI_CC_INVALID_PARAM_def)
  show ?thesis
    using a b c
    by (auto simp: dispatch_get_sensor_reading dispatch_set_fan_duty dispatch_get_sel_entry)
qed

theorem short_request_rejected_witness:
  "req_data_len (mk_request 0x04 0x2D []) < 1 \<and> req_data_len (mk_request 0x0A 0x43 [1]) < 2 \<and>
   ipmi_handle_command sensors_ready (mk_request 0x04 0x2D []) 0
     = Some (sensors_ready, zero_response\<lparr>completion_code := 0xC9\<rparr>) \<and>
   ipmi_handle_command sensors_ready (mk_request 0x04 0x30 []) 0
     = Some (sensors_ready, zero_response\<lparr>completion_code := 0xC9\<rparr>) \<and>
   ipmi_handle_command sensors_ready (mk_request 0x0A 0x43 [1]) 0
     = Some (sensors_ready, zero_response\<lparr>completion_code := 0xC9\<rparr>)"
  using short_request_rejected [of "mk_request 0x04 0x2D []" sensors_ready zero_response 0]
    short_request_rejected [of "mk_request 0x04 0x30 []" sensors_ready zero_response 0]
    short_request_rejected [of "mk_request 0x0A 0x43 [1]" sensors_ready zero_response 0]
  by (simp add: mk_request_def)

section \<open>Properties of the event log\<close>

lemma sel_after_empty:
  "length (sel st) = MAX_SEL_ENTRIES \<Longrightarrow> sel_count st = 0 \<Longrightarrow> sel_next_id st = 1 \<Longrightarrow>
   sel_after 0 st"
  by (simp add: sel_after_def sel_live_ids_def)

lemma sel_add_entry_below_capacity:
  assumes "sel_after n st" and "n < 256"
  shows "sel_after (Suc n) (snd (sel_add_entry st now sev src msg))"
proof -
  have mn: "min n 256 = n" "min (Suc n) 256 = Suc n"
    using assms(2) by simp_all
  have len: "length (sel st) = 256" and cnt: "sel_count st = int n"
    and nid: "sel_next_id st = of_nat (Suc n)"
    and ids: "map sel_id (take n (sel st)) = map of_nat [Suc 0..<Suc n]"
    using assms(1) unfolding sel_after_def MAX_SEL_ENTRIES_def sel_live_ids_def mn
    by (auto simp del: upt_Suc)
  have tk: "take (Suc n) ((sel st)[n := e]) = take n (sel st) @ [e]" for e
    using assms(2) len by (simp add: take_Suc_conv_app_nth)
  have up: "[Suc 0..<Suc (Suc n)] = [Suc 0..<Suc n] @ [Suc n]"
    by (rule upt_Suc_append) simp
  define E where "E = \<lparr>sel_id = of_nat (Suc n), sel_timestamp = now, sel_severity = sev,
                  sel_source = take 31 src, sel_message = take 255 msg\<rparr>"
  have st': "snd (sel_add_entry st now sev src msg)
      = st\<lparr>sel := (sel st)[n := E], sel_next_id := of_nat (Suc n) + 1, sel_count := int n + 1\<rparr>"
    using assms(2) cnt nid by (simp add: sel_add_entry_def Let_def MAX_SEL_ENTRIES_def E_def)
  have "sel_live_ids (snd (sel_add_entry st now sev src msg)) = map sel_id (take (Suc n) ((sel st)[n := E]))"
    by (simp add: st' sel_live_ids_def nat_add_distrib)
  also have "\<dots> = map sel_id (take n (sel st)) @ [sel_id E]"
    by (simp only: tk map_append list.map)
  also have "\<dots> = map of_nat [Suc 0..<Suc n] @ [of_nat (Suc n)]"
    by (simp only: ids) (simp add: E_def)
  also have "\<dots> = map of_nat ([Suc 0..<Suc n] @ [Suc n])"
    by (simp only: map_append list.map)
  also have "\<dots> = map of_nat [Suc 0..<Suc (Suc n)]"
    by (simp only: up)
  finally have live: "sel_live_ids (snd (sel_add_entry st now sev src msg))
      = map of_nat [Suc 0..<Suc (Suc n)]" .
  have d: "Suc (Suc n) - Suc n = Suc 0"
    by simp
  show ?thesis
    unfolding sel_after_def MAX_SEL_ENTRIES_def mn d
  proof (intro conjI)
    show "length (sel (snd (sel_add_entry st now sev src msg))) = 256"
      using len by (simp add: st')
    show "sel_count (snd (sel_add_entry st now sev src msg)) = int (Suc n)"
      by (simp add: st')
    show "sel_next_id (snd (sel_add_entry st now sev src msg)) = of_nat (Suc (Suc n))"
      by (simp add: st')
    show "sel_live_ids (snd (sel_add_entry st now sev src msg)) = map of_nat [Suc 0..<Suc (Suc n)]"
      by (rule live)
  qed
qed

lemma sel_add_entry_at_capacity:
  assumes "sel_after n st" and "256 \<le> n"
  shows "sel_after (Suc n) (snd (sel_add_entry st now sev src msg))"
proof -
  have mn: "min n 256 = 256" "min (Suc n) 256 = 256"
    using assms(2) by simp_all
  have len: "length (sel st) = 256" and cnt: "sel_count st = 256"
    and nid: "sel_next_id st = of_nat (Suc n)"
    and ids: "map sel_id (sel st) = map of_nat [Suc n - 256..<Suc n]"
    using assms(1) unfolding sel_after_def MAX_SEL_ENTRIES_def sel_live_ids_def mn
    by (auto simp del: upt_Suc)
  define shifted where "shifted = take 255 (drop 1 (sel st)) @ drop 255 (sel st)"
  have slen: "length shifted = 256"
    using len by (simp add: shifted_def)
  have tk: "take 256 (shifted[255 := e]) = take 255 (drop 1 (sel st)) @ [e]" for e
  proof -
    have "shifted[255 := e] = take 255 shifted @ e # drop (Suc 255) shifted"
      using slen by (intro upd_conv_take_nth_drop) simp
    moreover have "take 255 shifted = take 255 (drop 1 (sel st))"
      using len by (simp add: shifted_def)
    moreover have "drop (Suc 255) shifted = []"
      using slen by simp
    ultimately show ?thesis using slen by simp
  qed
  have e: "Suc n - 256 + 1 = Suc (Suc n) - 256"
    using assms(2) by simp
  have "map sel_id (take 255 (drop 1 (sel st))) = drop 1 (map sel_id (sel st))"
    using len by (simp add: drop_map)
  also have "\<dots> = drop 1 (map of_nat [Suc n - 256..<Suc n])"
    by (simp only: ids)
  also have "\<dots> = map of_nat [Suc n - 256 + 1..<Suc n]"
    by (simp only: drop_map drop_upt)
  also have "\<dots> = map of_nat [Suc (Suc n) - 256..<Suc n]"
    using e by (simp only:)
  finally have ids': "map sel_id (take 255 (drop 1 (sel st))) = map of_nat [Suc (Suc n) - 256..<Suc n]" .
  have up: "[Suc (Suc n) - 256..<Suc (Suc n)] = [Suc (Suc n) - 256..<Suc n] @ [Suc n]"
    by (rule upt_Suc_append) simp
  define E where "E = \<lparr>sel_id = of_nat (Suc n), sel_timestamp = now, sel_severity = sev,
                  sel_source = take 31 src, sel_message = take 255 msg\<rparr>"
  have st': "snd (sel_add_entry st now sev src msg)
      = st\<lparr>sel := shifted[255 := E], sel_next_id := of_nat (Suc n) + 1, sel_count := 256\<rparr>"
    using cnt nid by (simp add: sel_add_entry_def Let_def MAX_SEL_ENTRIES_def shifted_def E_def)
  have "sel_live_ids (snd (sel_add_entry st now sev src msg)) = map sel_id (take 256 (shifted[255 := E]))"
    by (simp add: st' sel_live_ids_def)
  also have "\<dots> = map sel_id (take 255 (drop 1 (sel st))) @ [sel_id E]"
    by (simp only: tk map_append list.map)
  also have "\<dots> = map of_nat [Suc (Suc n) - 256..<Suc n] @ [of_nat (Suc n)]"
    by (simp only: ids') (simp add: E_def)
  also have "\<dots> = map of_nat ([Suc (Suc n) - 256..<Suc n] @ [Suc n])"
    by (simp only: map_append list.map)
  also have "\<dots> = map of_nat [Suc (Suc n) - 256..<Suc (Suc n)]"
    by (simp only: up)
  finally have live: "sel_live_ids (snd (sel_add_entry st now sev src msg))
      = map of_nat [Suc (Suc n) - 256..<Suc (Suc n)]" .
  show ?thesis
    unfolding sel_after_def MAX_SEL_ENTRIES_def mn
  proof (intro conjI)
    show "length (sel (snd (sel_add_entry st now sev src msg))) = 256"
      using slen by (simp add: st')
    show "sel_count (snd (sel_add_entry st now sev src msg)) = int 256"
      by (simp add: st')
    show "sel_next_id (snd (sel_add_entry st now sev src msg)) = of_nat (Suc (Suc n))"
      by (simp add: st')
    show "sel_live_ids (snd (sel_add_entry st now sev src msg))
      = map of_nat [Suc (Suc n) - 256..<Suc (Suc n)]"
      by (rule live)
  qed
qed

lemma sel_add_entry_after:
  "sel_after n st \<Longrightarrow> sel_after (Suc n) (snd (sel_add_entry st now sev src msg))"
  using sel_add_entry_below_capacity sel_add_entry_at_capacity
  by (cases "n < 256") (auto simp: not_less)

lemma sel_add_all_after:
  "sel_after n st \<Longrightarrow> sel_after (n + length ps) (sel_add_all ps st)"
proof (induction ps arbitrary: n st)
  case Nil
  then show ?case by (simp add: sel_add_all_def)
next
  case (Cons a ps)
  obtain now sev src msg where a: "a = (now, sev, src, msg)"
    by (cases a) auto
  have "sel_after (Suc n) (sel_add_args a st)"
    using Cons.prems by (simp add: a sel_add_args_def sel_add_entry_after)
  then have "sel_after (Suc n + length ps) (sel_add_all ps (sel_add_args a st))"
    by (rule Cons.IH)
  then show ?case by (simp add: sel_add_all_def)
qed

lemma sel_add_entry_id:
  assumes "sel_after n st" and "n < 1000"
  shows "fst (sel_add_entry st now sev src msg) = int n + 1"
proof -
  have "sel_next_id st = of_nat (Suc n)"
    using assms by (simp add: sel_after_def)
  moreover have "sint (word_of_nat (Suc n) :: 32 word) = int (Suc n)"
    using assms(2) by (simp add: signed_of_nat signed_take_bit_int_eq_self del: of_nat_Suc)
  ultimately show ?thesis
    by (simp add: sel_add_entry_def Let_def)
qed

lemma sel_ids_strictly_increasing:
  assumes "b \<le> 2 ^ 32"
  shows "sorted_wrt (<) (map (of_nat :: nat \<Rightarrow> 32 word) [a..<b])"
proof -
  have "(of_nat x :: 32 word) < of_nat y" if "x \<in> set [a..<b]" "y \<in> set [a..<b]" "x < y" for x y
  proof -
    have "x < 2 ^ 32" "y < 2 ^ 32"
      using that assms by simp_all
    then show ?thesis
      using that(3) by (simp add: word_of_nat_less_iff take_bit_nat_eq_self)
  qed
  then have "sorted_wrt (\<lambda>x y. (of_nat x :: 32 word) < of_nat y) [a..<b]"
    by (rule sorted_wrt_mono_rel [OF _ sorted_wrt_upt])
  then show ?thesis
    by (simp only: sorted_wrt_map)
qed

lemma sel_after_count:
  "sel_after n st \<Longrightarrow> sel_count st = int (min n 256) \<and> sel_count st \<le> 256"
  by (simp add: sel_after_def MAX_SEL_ENTRIES_def)

lemma sel_after_live_sorted:
  assumes "sel_after n st" and "n < 1000"
  shows "sorted_wrt (<) (sel_live_ids st)"
proof -
  have "sel_live_ids st = map of_nat [Suc n - min n MAX_SEL_ENTRIES..<Suc n]"
    using assms(1) unfolding sel_after_def by blast
  moreover have "Suc n \<le> 2 ^ 32"
    using assms(2) by simp
  ultimately show ?thesis
    by (simp only: sel_ids_strictly_increasing)
qed

text \<open>
  Claim C4. From an empty log (count 0, next id 1, as \<^verbatim>\<open>sel_init\<close> leaves it), 300
  appends give \<open>sel_count = 256\<close> with the live entries holding exactly the ids 45 to
  300 in insertion order, and the next append is assigned id 301. Throughout (after any
  \<open>k \<le> 300\<close> of the appends) the count is at most 256, the ids of the live entries are
  strictly increasing, and the following append is assigned the id \<open>k + 1\<close>: the ids
  grow with every insertion and are never reused, and a full log loses its oldest
  entry.
\<close>

theorem sel_ring_overflow:
  assumes "length (sel st) = MAX_SEL_ENTRIES" and "sel_count st = 0" and "sel_next_id st = 1"
    and "length ps = 300"
  shows "sel_count (sel_add_all ps st) = 256
       \<and> sel_live_ids (sel_add_all ps st) = map of_nat [45..<301]
       \<and> fst (sel_add_entry (sel_add_all ps st) now sev src msg) = 301
       \<and> (\<forall>k \<le> 300.
            sel_count (sel_add_all (take k ps) st) \<le> 256
            \<and> sorted_wrt (<) (sel_live_ids (sel_add_all (take k ps) st))
            \<and> fst (sel_add_entry (sel_add_all (take k ps) st) now sev src msg) = int k + 1)"
proof -
  have pre: "sel_after k (sel_add_all (take k ps) st)" if "k \<le> 300" for k
  proof -
    have "sel_after (0 + length (take k ps)) (sel_add_all (take k ps) st)"
      using assms(1-3) by (intro sel_add_all_after sel_after_empty)
    then show ?thesis using that assms(4) by simp
  qed
  have full: "sel_after 300 (sel_add_all ps st)"
    using pre [of 300] assms(4) by simp
  have "Suc 300 - min 300 MAX_SEL_ENTRIES = 45" and "Suc 300 = 301"
    by (simp_all add: MAX_SEL_ENTRIES_def)
  then have ids: "sel_live_ids (sel_add_all ps st) = map of_nat [45..<301]"
    using full unfolding sel_after_def by (simp only:)
  have cnt: "sel_count (sel_add_all ps st) = 256"
    using sel_after_count [OF full] by simp
  have nxt: "fst (sel_add_entry (sel_add_all ps st) now sev src msg) = 301"
    using sel_add_entry_id [OF full] by simp
  have thr: "sel_count (sel_add_all (take k ps) st) \<le> 256
            \<and> sorted_wrt (<) (sel_live_ids (sel_add_all (take k ps) st))
            \<and> fst (sel_add_entry (sel_add_all (take k ps) st) now sev src msg) = int k + 1"
    if "k \<le> 300" for k
    using that sel_after_count [OF pre [OF that]] sel_after_live_sorted [OF pre [OF that]]
      sel_add_entry_id [OF pre [OF that]]
    by simp
  show ?thesis
    using ids cnt nxt thr by blast
qed

theorem sel_ring_overflow_witness:
  "length (sel (sel_init zero_state)) = MAX_SEL_ENTRIES \<and> sel_count (sel_init zero_state) = 0 \<and>
   sel_next_id (sel_init zero_state) = 1 \<and> length info_entries = 300 \<and>
   sel_count (sel_add_all info_entries (sel_init zero_state)) = 256 \<and>
   sel_live_ids (sel_add_all info_entries (sel_init zero_state)) = map of_nat [45..<301] \<and>
   fst (sel_add_entry (sel_add_all info_entries (sel_init zero_state)) 0 SEL_SEVERITY_INFO
         ''Test'' ''entry'') = 301 \<and>
   sel_count (sel_add_all (take 44 info_entries) (sel_init zero_state)) \<le> 256 \<and>
   fst (sel_add_entry (sel_add_all (take 44 info_entries) (sel_init zero_state)) 0
         SEL_SEVERITY_INFO ''Test'' ''entry'') = 45"
proof -
  have a: "length (sel (sel_init zero_state)) = MAX_SEL_ENTRIES"
    and b: "sel_count (sel_init zero_state) = 0"
    and c: "sel_next_id (sel_init zero_state) = 1"
    by (simp_all add: zero_state_def sel_init_def)
  have d: "length info_entries = 300"
    by (simp add: info_entries_def)
  show ?thesis
    using a b c d sel_ring_overflow [OF a b c d, of 0 SEL_SEVERITY_INFO "''Test''" "''entry''"]
    by simp
qed

section \<open>Properties of the secure boot verifier\<close>

lemma sel_add_entry_fw_images [simp]:
  "fw_images (snd (sel_add_entry st now sev src msg)) = fw_images st"
  by (simp add: sel_add_entry_def Let_def)

lemma sel_add_entry_fw_image_count [simp]:
  "fw_image_count (snd (sel_add_entry st now sev src msg)) = fw_image_count st"
  by (simp add: sel_add_entry_def Let_def)

lemma fw_paths:
  "fw_path ''bootloader'' = ''/tmp/bmc_fw_images/bootloader.bin''"
  "fw_path ''bmc_firmware'' = ''/tmp/bmc_fw_images/bmc_firmware.bin''"
  "fw_path ''application'' = ''/tmp/bmc_fw_images/application.bin''"
  "fw_path ''config_data'' = ''/tmp/bmc_fw_images/config_data.bin''"
  by (simp_all add: fw_path_def FW_IMAGE_DIR_def)

lemma list4:
  assumes "length xs = 4"
  obtains a b c d where "xs = [a, b, c, d]"
proof -
  from assms obtain a b c d where "xs = [a, b, c, d]"
    by (auto simp: length_Suc_conv eval_nat_numeral)
  then show ?thesis by (rule that)
qed

text \<open>The images and the files that \<^verbatim>\<open>secure_boot_init\<close> leaves.\<close>

lemma secure_boot_init_result:
  assumes len: "length (fw_images st) = 4"
    and w: "\<not> wdenied fs ''/tmp/bmc_fw_images/bootloader.bin''"
      "\<not> wdenied fs ''/tmp/bmc_fw_images/bmc_firmware.bin''"
      "\<not> wdenied fs ''/tmp/bmc_fw_images/application.bin''"
      "\<not> wdenied fs ''/tmp/bmc_fw_images/config_data.bin''"
  shows "fw_image_count (fst (snd (secure_boot_init H prng st fs now))) = 4"
    and "fw_images (fst (snd (secure_boot_init H prng st fs now))) =
      [(fw_images st ! 0)\<lparr>fw_name := ''bootloader'', verified := False, passed := False,
          expected_hash := H (fw_image_bytes prng 42)\<rparr>,
       (fw_images st ! 1)\<lparr>fw_name := ''bmc_firmware'', verified := False, passed := False,
          expected_hash := H (fw_image_bytes prng 43)\<rparr>,
       (fw_images st ! 2)\<lparr>fw_name := ''application'', verified := False, passed := False,
          expected_hash := H (fw_image_bytes prng 44)\<rparr>,
       (fw_images st ! 3)\<lparr>fw_name := ''config_data'', verified := False, passed := False,
          expected_hash := H (fw_image_bytes prng 45)\<rparr>]"
    and "snd (snd (secure_boot_init H prng st fs now)) =
      fs\<lparr>files := (files fs)
        (''/tmp/bmc_fw_images/bootloader.bin'' \<mapsto> fw_image_bytes prng 42,
         ''/tmp/bmc_fw_images/bmc_firmware.bin'' \<mapsto> fw_image_bytes prng 43,
         ''/tmp/bmc_fw_images/application.bin'' \<mapsto> fw_image_bytes prng 44,
         ''/tmp/bmc_fw_images/config_data.bin'' \<mapsto> fw_image_bytes prng 45)\<rparr>"
proof -
  obtain a b c d where abcd: "fw_images st = [a, b, c, d]"
    using len by (rule list4)
  have idx: "[0..<4] = [0, 1, 2, 3::nat]"
    by (simp add: upt_conv_Cons numeral_eq_Suc)
  have fold4: "fold (secure_boot_init_step H prng) [0..<4] (st\<lparr>fw_image_count := 4\<rparr>, fs)
    = (st\<lparr>fw_image_count := 4, fw_images :=
        [a\<lparr>fw_name := ''bootloader'', verified := False, passed := False,
          expected_hash := H (fw_image_bytes prng 42)\<rparr>,
         b\<lparr>fw_name := ''bmc_firmware'', verified := False, passed := False,
          expected_hash := H (fw_image_bytes prng 43)\<rparr>,
         c\<lparr>fw_name := ''application'', verified := False, passed := False,
          expected_hash := H (fw_image_bytes prng 44)\<rparr>,
         d\<lparr>fw_name := ''config_data'', verified := False, passed := False,
          expected_hash := H (fw_image_bytes prng 45)\<rparr>]\<rparr>,
       fs\<lparr>files := (files fs)
        (''/tmp/bmc_fw_images/bootloader.bin'' \<mapsto> fw_image_bytes prng 42,
         ''/tmp/bmc_fw_images/bmc_firmware.bin'' \<mapsto> fw_image_bytes prng 43,
         ''/tmp/bmc_fw_images/application.bin'' \<mapsto> fw_image_bytes prng 44,
         ''/tmp/bmc_fw_images/config_data.bin'' \<mapsto> fw_image_bytes prng 45)\<rparr>)"
    unfolding idx
    using w
    by (simp add: secure_boot_init_step_def Let_def fw_configs_def fw_paths abcd
        generate_fw_image_def compute_file_hash_def)
  have pre: "secure_boot_init H prng st fs now =
     (0, snd (sel_add_entry (fst (fold (secure_boot_init_step H prng) [0..<4] (st\<lparr>fw_image_count := 4\<rparr>, fs)))
            now SEL_SEVERITY_INFO ''SecureBoot''
            (''Secure boot chain initialized with '' @ decimal_int (fw_image_count
               (fst (fold (secure_boot_init_step H prng) [0..<4] (st\<lparr>fw_image_count := 4\<rparr>, fs)))) @ '' images'')),
      snd (fold (secure_boot_init_step H prng) [0..<4] (st\<lparr>fw_image_count := 4\<rparr>, fs)))"
    by (simp add: secure_boot_init_def Let_def NUM_FW_IMAGES_def fw_configs_def MAX_FW_IMAGES_def
        del: upt_rec_numeral)
  show "fw_image_count (fst (snd (secure_boot_init H prng st fs now))) = 4"
    unfolding pre fold4 by simp
  show "fw_images (fst (snd (secure_boot_init H prng st fs now))) =
      [(fw_images st ! 0)\<lparr>fw_name := ''bootloader'', verified := False, passed := False,
          expected_hash := H (fw_image_bytes prng 42)\<rparr>,
       (fw_images st ! 1)\<lparr>fw_name := ''bmc_firmware'', verified := False, passed := False,
          expected_hash := H (fw_image_bytes prng 43)\<rparr>,
       (fw_images st ! 2)\<lparr>fw_name := ''application'', verified := False, passed := False,
          expected_hash := H (fw_image_bytes prng 44)\<rparr>,
       (fw_images st ! 3)\<lparr>fw_name := ''config_data'', verified := False, passed := False,
          expected_hash := H (fw_image_bytes prng 45)\<rparr>]"
    unfolding pre fold4 by (simp add: abcd)
  show "snd (snd (secure_boot_init H prng st fs now)) =
      fs\<lparr>files := (files fs)
        (''/tmp/bmc_fw_images/bootloader.bin'' \<mapsto> fw_image_bytes prng 42,
         ''/tmp/bmc_fw_images/bmc_firmware.bin'' \<mapsto> fw_image_bytes prng 43,
         ''/tmp/bmc_fw_images/application.bin'' \<mapsto> fw_image_bytes prng 44,
         ''/tmp/bmc_fw_images/config_data.bin'' \<mapsto> fw_image_bytes prng 45)\<rparr>"
    unfolding pre fold4 by simp
qed

lemma verify_loop_untouched:
  "j \<notin> set ks \<Longrightarrow> fw_images (snd (verify_loop H fs now ks ap st)) ! j = fw_images st ! j"
  by (induction ks arbitrary: ap st) (auto simp: Let_def split: option.splits)

lemma verify_loop_length:
  "length (fw_images (snd (verify_loop H fs now ks ap st))) = length (fw_images st)"
  by (induction ks arbitrary: ap st) (auto simp: Let_def split: option.splits)

text \<open>
  The chain break: when the verifier reads image \<open>i\<close> and leaves it with
  \<open>passed = false\<close>, an image \<open>j\<close> behind it keeps the \<open>verified\<close> flag it had.
\<close>

lemma verify_loop_chain:
  assumes "sorted_wrt (<) ks" and "\<forall>k \<in> set ks. k < length (fw_images st)"
    and "i \<in> set ks" and "i < j"
    and "files fs (fw_path (fw_name (fw_images st ! i))) \<noteq> None"
    and "\<not> verified (fw_images st ! j)"
    and "\<not> passed (fw_images (snd (verify_loop H fs now ks ap st)) ! i)"
  shows "\<not> verified (fw_images (snd (verify_loop H fs now ks ap st)) ! j)"
  using assms
proof (induction ks arbitrary: ap st)
  case Nil
  then show ?case by simp
next
  case (Cons h rest)
  have h_lt: "h < length (fw_images st)"
    using Cons.prems(2) by simp
  have rest_gt: "\<forall>k \<in> set rest. h < k" and rest_sorted: "sorted_wrt (<) rest"
    using Cons.prems(1) by simp_all
  show ?case
  proof (cases "h = i")
    case True
    then have notin: "i \<notin> set rest"
      using rest_gt by auto
    obtain bs where bs: "files fs (fw_path (fw_name (fw_images st ! i))) = Some bs"
      using Cons.prems(5) by auto
    show ?thesis
    proof (cases "expected_hash (fw_images st ! i) = H bs")
      case match: True
      have "passed (fw_images (snd (verify_loop H fs now (h # rest) ap st)) ! i)"
        using True match bs h_lt notin
        by (simp add: Let_def compute_file_hash_def verify_loop_untouched)
      then show ?thesis using Cons.prems(7) by simp
    next
      case False
      then show ?thesis
        using True bs h_lt Cons.prems(4,6)
        by (simp add: Let_def compute_file_hash_def)
    qed
  next
    case False
    then have i_in: "i \<in> set rest" and hi: "h < i"
      using Cons.prems(3) rest_gt by auto
    then have hj: "h \<noteq> j"
      using Cons.prems(4) by simp
    have step: "\<not> verified (fw_images (snd (verify_loop H fs now rest ap' st')) ! j)"
      if "fw_images st' = (fw_images st)[h := x]"
        and "\<not> passed (fw_images (snd (verify_loop H fs now rest ap' st')) ! i)"
      for ap' st' x
    proof (rule Cons.IH [OF rest_sorted _ i_in Cons.prems(4)])
      show "\<forall>k \<in> set rest. k < length (fw_images st')"
        using Cons.prems(2) that(1) by simp
      show "files fs (fw_path (fw_name (fw_images st' ! i))) \<noteq> None"
        using Cons.prems(5) that(1) False by simp
      show "\<not> verified (fw_images st' ! j)"
        using Cons.prems(6) that(1) hj by simp
      show "\<not> passed (fw_images (snd (verify_loop H fs now rest ap' st')) ! i)"
        by (rule that(2))
    qed
    show ?thesis
    proof (cases "files fs (fw_path (fw_name (fw_images st ! h)))")
      case None
      define st2 where "st2 = snd (sel_add_entry
          (st\<lparr>fw_images := (fw_images st)[h := (fw_images st ! h)\<lparr>verified := True, passed := False\<rparr>]\<rparr>)
          now SEL_SEVERITY_CRITICAL ''SecureBoot''
          (''FAIL: Cannot read image '' @ [CHR 39] @ fw_name (fw_images st ! h) @ [CHR 39]))"
      have eq: "verify_loop H fs now (h # rest) ap st = verify_loop H fs now rest False st2"
        using None by (simp add: Let_def compute_file_hash_def st2_def)
      have f1: "fw_images st2 = (fw_images st)[h := (fw_images st ! h)\<lparr>verified := True, passed := False\<rparr>]"
        by (simp add: st2_def)
      have f2: "\<not> passed (fw_images (snd (verify_loop H fs now rest False st2)) ! i)"
        using Cons.prems(7) unfolding eq .
      show ?thesis
        using step [OF f1 f2] unfolding eq .
    next
      case (Some bs)
      show ?thesis
      proof (cases "expected_hash (fw_images st ! h) = H bs")
        case True
        define st2 where "st2 = snd (sel_add_entry
            (st\<lparr>fw_images := (fw_images st)[h := (fw_images st ! h)\<lparr>actual_hash := H bs,
                verified := True, passed := True\<rparr>]\<rparr>)
            now SEL_SEVERITY_INFO ''SecureBoot''
            (''PASS: Image '' @ [CHR 39] @ fw_name (fw_images st ! h) @ [CHR 39]
             @ '' integrity verified''))"
        have eq: "verify_loop H fs now (h # rest) ap st = verify_loop H fs now rest ap st2"
          using Some True by (simp add: Let_def compute_file_hash_def st2_def)
        have f1: "fw_images st2 = (fw_images st)[h := (fw_images st ! h)\<lparr>actual_hash := H bs,
                verified := True, passed := True\<rparr>]"
          by (simp add: st2_def)
        have f2: "\<not> passed (fw_images (snd (verify_loop H fs now rest ap st2)) ! i)"
          using Cons.prems(7) unfolding eq .
        show ?thesis
          using step [OF f1 f2] unfolding eq .
      next
        case mismatch: False
        then show ?thesis
          using Some Cons.prems(6) hj
          by (simp add: Let_def compute_file_hash_def)
      qed
    qed
  qed
qed

lemma indices4: "[0..<4] = [0, 1, 2, 3::nat]"
  by (simp add: upt_conv_Cons numeral_eq_Suc)

lemma verify4_second_mismatch:
  assumes "fw_images st = [a, b, c, d]" and "fw_image_count st = 4"
    and "files fs (fw_path (fw_name a)) = Some ba" and "expected_hash a = H ba"
    and "files fs (fw_path (fw_name b)) = Some bb" and "expected_hash b \<noteq> H bb"
  shows "fst (secure_boot_verify H fs st now) = False"
    and "secure_boot_passed (snd (secure_boot_verify H fs st now)) = False"
    and "fw_images (snd (secure_boot_verify H fs st now)) =
      [a\<lparr>actual_hash := H ba, verified := True, passed := True\<rparr>,
       b\<lparr>actual_hash := H bb, verified := True, passed := False\<rparr>, c, d]"
  using assms
  by (simp_all add: secure_boot_verify_def indices4 Let_def compute_file_hash_def)

lemma verify4_all_match:
  assumes "fw_images st = [a, b, c, d]" and "fw_image_count st = 4"
    and "files fs (fw_path (fw_name a)) = Some ba" and "expected_hash a = H ba"
    and "files fs (fw_path (fw_name b)) = Some bb" and "expected_hash b = H bb"
    and "files fs (fw_path (fw_name c)) = Some bc" and "expected_hash c = H bc"
    and "files fs (fw_path (fw_name d)) = Some bd" and "expected_hash d = H bd"
  shows "fst (secure_boot_verify H fs st now) = True"
    and "fw_image_count (snd (secure_boot_verify H fs st now)) = 4"
    and "fw_images (snd (secure_boot_verify H fs st now)) =
      [a\<lparr>actual_hash := H ba, verified := True, passed := True\<rparr>,
       b\<lparr>actual_hash := H bb, verified := True, passed := True\<rparr>,
       c\<lparr>actual_hash := H bc, verified := True, passed := True\<rparr>,
       d\<lparr>actual_hash := H bd, verified := True, passed := True\<rparr>]"
  using assms
  by (simp_all add: secure_boot_verify_def indices4 Let_def compute_file_hash_def)

lemma verify4_second_unreadable:
  assumes "fw_images st = [a, b, c, d]" and "fw_image_count st = 4"
    and "files fs (fw_path (fw_name a)) = Some ba" and "expected_hash a = H ba"
    and "files fs (fw_path (fw_name b)) = None"
    and "files fs (fw_path (fw_name c)) = Some bc" and "expected_hash c = H bc"
    and "files fs (fw_path (fw_name d)) = Some bd" and "expected_hash d = H bd"
  shows "fst (secure_boot_verify H fs st now) = False"
    and "fw_images (snd (secure_boot_verify H fs st now)) =
      [a\<lparr>actual_hash := H ba, verified := True, passed := True\<rparr>,
       b\<lparr>verified := True, passed := False\<rparr>,
       c\<lparr>actual_hash := H bc, verified := True, passed := True\<rparr>,
       d\<lparr>actual_hash := H bd, verified := True, passed := True\<rparr>]"
  using assms
  by (simp_all add: secure_boot_verify_def indices4 Let_def compute_file_hash_def)

lemma inject_tamper_result:
  assumes "0 \<le> idx" and "idx < fw_image_count st"
    and "files fs (fw_path (fw_name (fw_images st ! nat idx))) = Some bs"
    and "\<not> wdenied fs (fw_path (fw_name (fw_images st ! nat idx)))"
  shows "fw_images (fst (snd (secure_boot_inject_tamper st fs idx now))) = fw_images st"
    and "fw_image_count (fst (snd (secure_boot_inject_tamper st fs idx now))) = fw_image_count st"
    and "snd (snd (secure_boot_inject_tamper st fs idx now))
      = fs\<lparr>files := (files fs)(fw_path (fw_name (fw_images st ! nat idx)) \<mapsto> 255 # drop 1 bs)\<rparr>"
  using assms by (simp_all add: secure_boot_inject_tamper_def Let_def)

lemma fw_image_bytes_Cons:
  "fw_image_bytes prng seed
     = of_nat (prng seed 0 mod 256) # map (\<lambda>k. of_nat (prng seed k mod 256)) [Suc 0..<4096]"
proof -
  have "[0..<4096] = 0 # [Suc 0..<4096]"
    by (rule upt_conv_Cons) simp
  then show ?thesis
    by (simp only: fw_image_bytes_def FW_IMAGE_SIZE_def list.map)
qed

lemma booted_state:
  "fw_image_count (fst (booted H prng)) = 4"
  "fw_images (fst (booted H prng)) =
      [zero_fw_image\<lparr>fw_name := ''bootloader'', verified := False, passed := False,
          expected_hash := H (fw_image_bytes prng 42)\<rparr>,
       zero_fw_image\<lparr>fw_name := ''bmc_firmware'', verified := False, passed := False,
          expected_hash := H (fw_image_bytes prng 43)\<rparr>,
       zero_fw_image\<lparr>fw_name := ''application'', verified := False, passed := False,
          expected_hash := H (fw_image_bytes prng 44)\<rparr>,
       zero_fw_image\<lparr>fw_name := ''config_data'', verified := False, passed := False,
          expected_hash := H (fw_image_bytes prng 45)\<rparr>]"
  "snd (booted H prng) =
      empty_fs\<lparr>files := (files empty_fs)
        (''/tmp/bmc_fw_images/bootloader.bin'' \<mapsto> fw_image_bytes prng 42,
         ''/tmp/bmc_fw_images/bmc_firmware.bin'' \<mapsto> fw_image_bytes prng 43,
         ''/tmp/bmc_fw_images/application.bin'' \<mapsto> fw_image_bytes prng 44,
         ''/tmp/bmc_fw_images/config_data.bin'' \<mapsto> fw_image_bytes prng 45)\<rparr>"
proof -
  have len: "length (fw_images (snd (bmc_state_init True))) = 4"
    by (simp add: bmc_state_init_def zero_state_def MAX_FW_IMAGES_def)
  have w: "\<not> wdenied empty_fs p" for p
    by (simp add: empty_fs_def)
  have z: "fw_images (snd (bmc_state_init True)) ! k = zero_fw_image" if "k < 4" for k
    using that by (simp add: bmc_state_init_def zero_state_def MAX_FW_IMAGES_def)
  note r = secure_boot_init_result [OF len w w w w, of H prng 0]
  show "fw_image_count (fst (booted H prng)) = 4"
    using r(1) by (simp add: booted_def)
  show "fw_images (fst (booted H prng)) =
      [zero_fw_image\<lparr>fw_name := ''bootloader'', verified := False, passed := False,
          expected_hash := H (fw_image_bytes prng 42)\<rparr>,
       zero_fw_image\<lparr>fw_name := ''bmc_firmware'', verified := False, passed := False,
          expected_hash := H (fw_image_bytes prng 43)\<rparr>,
       zero_fw_image\<lparr>fw_name := ''application'', verified := False, passed := False,
          expected_hash := H (fw_image_bytes prng 44)\<rparr>,
       zero_fw_image\<lparr>fw_name := ''config_data'', verified := False, passed := False,
          expected_hash := H (fw_image_bytes prng 45)\<rparr>]"
    using r(2) by (simp add: booted_def z)
  show "snd (booted H prng) =
      empty_fs\<lparr>files := (files empty_fs)
        (''/tmp/bmc_fw_images/bootloader.bin'' \<mapsto> fw_image_bytes prng 42,
         ''/tmp/bmc_fw_images/bmc_firmware.bin'' \<mapsto> fw_image_bytes prng 43,
         ''/tmp/bmc_fw_images/application.bin'' \<mapsto> fw_image_bytes prng 44,
         ''/tmp/bmc_fw_images/config_data.bin'' \<mapsto> fw_image_bytes prng 45)\<rparr>"
    using r(3) by (simp add: booted_def)
qed

text \<open>
  Claim C1 says that the verifier, on an image whose blob cannot be read, breaks out
  of the loop and touches no field of any later image. The code goes on with the next
  image instead (\<^verbatim>\<open>continue\<close>): after \<^verbatim>\<open>secure_boot_init\<close>, with the blob of image 1
  removed, one \<^verbatim>\<open>secure_boot_verify\<close> marks image 1 verified and failed and returns
  false, and it also verifies images 2 and 3, which before the call had
  \<open>verified = false\<close>: their \<open>actual_hash\<close>, \<open>verified\<close> and \<open>passed\<close> are written. This
  holds for every digest \<open>H\<close> and every generator \<open>prng\<close>.
\<close>

theorem verify_continues_after_unreadable_image:
  "\<not> verified (fw_images (fst (booted H prng)) ! 2)
   \<and> \<not> verified (fw_images (fst (booted H prng)) ! 3)
   \<and> files (remove_file (snd (booted H prng)) (fw_path ''bmc_firmware''))
        (fw_path (fw_name (fw_images (fst (booted H prng)) ! 1))) = None
   \<and> \<not> fst (verify_without_image1 H prng)
   \<and> verified (fw_images (snd (verify_without_image1 H prng)) ! 1)
   \<and> \<not> passed (fw_images (snd (verify_without_image1 H prng)) ! 1)
   \<and> verified (fw_images (snd (verify_without_image1 H prng)) ! 2)
   \<and> passed (fw_images (snd (verify_without_image1 H prng)) ! 2)
   \<and> actual_hash (fw_images (snd (verify_without_image1 H prng)) ! 2) = H (fw_image_bytes prng 44)
   \<and> verified (fw_images (snd (verify_without_image1 H prng)) ! 3)
   \<and> passed (fw_images (snd (verify_without_image1 H prng)) ! 3)"
proof -
  note b = booted_state [of H prng]
  have r: "fst (verify_without_image1 H prng) = False"
    "fw_images (snd (verify_without_image1 H prng)) =
      [zero_fw_image\<lparr>fw_name := ''bootloader'', verified := False, passed := False,
          expected_hash := H (fw_image_bytes prng 42)\<rparr>
         \<lparr>actual_hash := H (fw_image_bytes prng 42), verified := True, passed := True\<rparr>,
       zero_fw_image\<lparr>fw_name := ''bmc_firmware'', verified := False, passed := False,
          expected_hash := H (fw_image_bytes prng 43)\<rparr>
         \<lparr>verified := True, passed := False\<rparr>,
       zero_fw_image\<lparr>fw_name := ''application'', verified := False, passed := False,
          expected_hash := H (fw_image_bytes prng 44)\<rparr>
         \<lparr>actual_hash := H (fw_image_bytes prng 44), verified := True, passed := True\<rparr>,
       zero_fw_image\<lparr>fw_name := ''config_data'', verified := False, passed := False,
          expected_hash := H (fw_image_bytes prng 45)\<rparr>
         \<lparr>actual_hash := H (fw_image_bytes prng 45), verified := True, passed := True\<rparr>]"
    unfolding verify_without_image1_def
    by (rule verify4_second_unreadable [OF b(2) b(1)]; simp add: b(3) remove_file_def fw_paths)+
  show ?thesis
    unfolding r by (simp add: b remove_file_def fw_paths)
qed

lemma secure_boot_verify_fw_images:
  "fw_images (snd (secure_boot_verify H fs st now))
     = fw_images (snd (verify_loop H fs now [0..<nat (fw_image_count st)] True st))"
  by (simp add: secure_boot_verify_def Let_def)

lemma verify_chain_general:
  assumes "nat (fw_image_count st) \<le> length (fw_images st)"
    and "i < j" and "j < nat (fw_image_count st)"
    and "files fs (fw_path (fw_name (fw_images st ! i))) \<noteq> None"
    and "\<not> verified (fw_images st ! j)"
    and "\<not> passed (fw_images (snd (secure_boot_verify H fs st now)) ! i)"
  shows "\<not> verified (fw_images (snd (secure_boot_verify H fs st now)) ! j)"
  unfolding secure_boot_verify_fw_images
proof (rule verify_loop_chain [where i = i])
  show "sorted_wrt (<) [0..<nat (fw_image_count st)]"
    by simp
  show "\<forall>k \<in> set [0..<nat (fw_image_count st)]. k < length (fw_images st)"
    using assms(1) by simp
  show "i \<in> set [0..<nat (fw_image_count st)]"
    using assms(2,3) by simp
  show "i < j"
    by (rule assms(2))
  show "files fs (fw_path (fw_name (fw_images st ! i))) \<noteq> None"
    by (rule assms(4))
  show "\<not> verified (fw_images st ! j)"
    by (rule assms(5))
  show "\<not> passed (fw_images (snd (verify_loop H fs now [0..<nat (fw_image_count st)] True st)) ! i)"
    using assms(6) unfolding secure_boot_verify_fw_images .
qed

lemma init_tamper_result:
  assumes len: "length (fw_images st) = 4"
    and w: "\<not> wdenied fs ''/tmp/bmc_fw_images/bootloader.bin''"
      "\<not> wdenied fs ''/tmp/bmc_fw_images/bmc_firmware.bin''"
      "\<not> wdenied fs ''/tmp/bmc_fw_images/application.bin''"
      "\<not> wdenied fs ''/tmp/bmc_fw_images/config_data.bin''"
  shows "fw_image_count (fst (init_tamper H prng st fs 1 now)) = 4"
    and "fw_images (fst (init_tamper H prng st fs 1 now)) =
      [(fw_images st ! 0)\<lparr>fw_name := ''bootloader'', verified := False, passed := False,
          expected_hash := H (fw_image_bytes prng 42)\<rparr>,
       (fw_images st ! 1)\<lparr>fw_name := ''bmc_firmware'', verified := False, passed := False,
          expected_hash := H (fw_image_bytes prng 43)\<rparr>,
       (fw_images st ! 2)\<lparr>fw_name := ''application'', verified := False, passed := False,
          expected_hash := H (fw_image_bytes prng 44)\<rparr>,
       (fw_images st ! 3)\<lparr>fw_name := ''config_data'', verified := False, passed := False,
          expected_hash := H (fw_image_bytes prng 45)\<rparr>]"
    and "files (snd (init_tamper H prng st fs 1 now)) ''/tmp/bmc_fw_images/bootloader.bin''
           = Some (fw_image_bytes prng 42)"
    and "files (snd (init_tamper H prng st fs 1 now)) ''/tmp/bmc_fw_images/bmc_firmware.bin''
           = Some (255 # drop 1 (fw_image_bytes prng 43))"
proof -
  note r = secure_boot_init_result [OF len w, of H prng now]
  have rd: "files (snd (snd (secure_boot_init H prng st fs now)))
      (fw_path (fw_name (fw_images (fst (snd (secure_boot_init H prng st fs now))) ! nat 1)))
       = Some (fw_image_bytes prng 43)"
    by (simp add: r fw_paths)
  have wr: "\<not> wdenied (snd (snd (secure_boot_init H prng st fs now)))
      (fw_path (fw_name (fw_images (fst (snd (secure_boot_init H prng st fs now))) ! nat 1)))"
    using w(2) by (simp add: r fw_paths)
  have c: "(0::int) \<le> 1" "1 < fw_image_count (fst (snd (secure_boot_init H prng st fs now)))"
    by (simp_all add: r(1))
  note t = inject_tamper_result [OF c rd wr, of now]
  show "fw_image_count (fst (init_tamper H prng st fs 1 now)) = 4"
    by (simp add: init_tamper_def Let_def t(2) r(1))
  show "fw_images (fst (init_tamper H prng st fs 1 now)) =
      [(fw_images st ! 0)\<lparr>fw_name := ''bootloader'', verified := False, passed := False,
          expected_hash := H (fw_image_bytes prng 42)\<rparr>,
       (fw_images st ! 1)\<lparr>fw_name := ''bmc_firmware'', verified := False, passed := False,
          expected_hash := H (fw_image_bytes prng 43)\<rparr>,
       (fw_images st ! 2)\<lparr>fw_name := ''application'', verified := False, passed := False,
          expected_hash := H (fw_image_bytes prng 44)\<rparr>,
       (fw_images st ! 3)\<lparr>fw_name := ''config_data'', verified := False, passed := False,
          expected_hash := H (fw_image_bytes prng 45)\<rparr>]"
    by (simp add: init_tamper_def Let_def t(1) r(2))
  show "files (snd (init_tamper H prng st fs 1 now)) ''/tmp/bmc_fw_images/bootloader.bin''
           = Some (fw_image_bytes prng 42)"
    by (simp add: init_tamper_def Let_def t(3)) (simp add: r fw_paths)
  show "files (snd (init_tamper H prng st fs 1 now)) ''/tmp/bmc_fw_images/bmc_firmware.bin''
           = Some (255 # drop 1 (fw_image_bytes prng 43))"
    by (simp add: init_tamper_def Let_def t(3)) (simp add: r fw_paths)
qed

lemma init_tamper_verify_result:
  assumes len: "length (fw_images st) = 4"
    and w: "\<not> wdenied fs ''/tmp/bmc_fw_images/bootloader.bin''"
      "\<not> wdenied fs ''/tmp/bmc_fw_images/bmc_firmware.bin''"
      "\<not> wdenied fs ''/tmp/bmc_fw_images/application.bin''"
      "\<not> wdenied fs ''/tmp/bmc_fw_images/config_data.bin''"
    and ne: "H (255 # drop 1 (fw_image_bytes prng 43)) \<noteq> H (fw_image_bytes prng 43)"
  shows "fst (init_tamper_verify H prng st fs 1 now) = False"
    and "secure_boot_passed (snd (init_tamper_verify H prng st fs 1 now)) = False"
    and "fw_images (snd (init_tamper_verify H prng st fs 1 now)) =
      [(fw_images st ! 0)\<lparr>fw_name := ''bootloader'', verified := False, passed := False,
          expected_hash := H (fw_image_bytes prng 42)\<rparr>
          \<lparr>actual_hash := H (fw_image_bytes prng 42), verified := True, passed := True\<rparr>,
       (fw_images st ! 1)\<lparr>fw_name := ''bmc_firmware'', verified := False, passed := False,
          expected_hash := H (fw_image_bytes prng 43)\<rparr>
          \<lparr>actual_hash := H (255 # drop 1 (fw_image_bytes prng 43)), verified := True,
           passed := False\<rparr>,
       (fw_images st ! 2)\<lparr>fw_name := ''application'', verified := False, passed := False,
          expected_hash := H (fw_image_bytes prng 44)\<rparr>,
       (fw_images st ! 3)\<lparr>fw_name := ''config_data'', verified := False, passed := False,
          expected_hash := H (fw_image_bytes prng 45)\<rparr>]"
proof -
  note t = init_tamper_result [OF len w, of H prng now]
  have a: "files (snd (init_tamper H prng st fs 1 now))
      (fw_path (fw_name ((fw_images st ! 0)\<lparr>fw_name := ''bootloader'', verified := False,
          passed := False, expected_hash := H (fw_image_bytes prng 42)\<rparr>)))
      = Some (fw_image_bytes prng 42)"
    by (simp add: fw_paths t(3))
  have b: "files (snd (init_tamper H prng st fs 1 now))
      (fw_path (fw_name ((fw_images st ! 1)\<lparr>fw_name := ''bmc_firmware'', verified := False,
          passed := False, expected_hash := H (fw_image_bytes prng 43)\<rparr>)))
      = Some (255 # drop 1 (fw_image_bytes prng 43))"
    by (simp add: fw_paths t(4))
  have ea: "expected_hash ((fw_images st ! 0)\<lparr>fw_name := ''bootloader'', verified := False,
          passed := False, expected_hash := H (fw_image_bytes prng 42)\<rparr>)
        = H (fw_image_bytes prng 42)"
    by simp
  have eb: "expected_hash ((fw_images st ! 1)\<lparr>fw_name := ''bmc_firmware'', verified := False,
          passed := False, expected_hash := H (fw_image_bytes prng 43)\<rparr>)
        \<noteq> H (255 # drop 1 (fw_image_bytes prng 43))"
    using ne by simp
  note v = verify4_second_mismatch [OF t(2) t(1) a ea b eb, of now]
  show "fst (init_tamper_verify H prng st fs 1 now) = False"
    using v(1) by (simp add: init_tamper_verify_def Let_def)
  show "secure_boot_passed (snd (init_tamper_verify H prng st fs 1 now)) = False"
    using v(2) by (simp add: init_tamper_verify_def Let_def)
  show "fw_images (snd (init_tamper_verify H prng st fs 1 now)) =
      [(fw_images st ! 0)\<lparr>fw_name := ''bootloader'', verified := False, passed := False,
          expected_hash := H (fw_image_bytes prng 42)\<rparr>
          \<lparr>actual_hash := H (fw_image_bytes prng 42), verified := True, passed := True\<rparr>,
       (fw_images st ! 1)\<lparr>fw_name := ''bmc_firmware'', verified := False, passed := False,
          expected_hash := H (fw_image_bytes prng 43)\<rparr>
          \<lparr>actual_hash := H (255 # drop 1 (fw_image_bytes prng 43)), verified := True,
           passed := False\<rparr>,
       (fw_images st ! 2)\<lparr>fw_name := ''application'', verified := False, passed := False,
          expected_hash := H (fw_image_bytes prng 44)\<rparr>,
       (fw_images st ! 3)\<lparr>fw_name := ''config_data'', verified := False, passed := False,
          expected_hash := H (fw_image_bytes prng 45)\<rparr>]"
    using v(3) by (simp add: init_tamper_verify_def Let_def)
qed

lemma init_verify_tamper_verify_result:
  assumes len: "length (fw_images st) = 4"
    and w: "\<not> wdenied fs ''/tmp/bmc_fw_images/bootloader.bin''"
      "\<not> wdenied fs ''/tmp/bmc_fw_images/bmc_firmware.bin''"
      "\<not> wdenied fs ''/tmp/bmc_fw_images/application.bin''"
      "\<not> wdenied fs ''/tmp/bmc_fw_images/config_data.bin''"
    and ne: "H (255 # drop 1 (fw_image_bytes prng 43)) \<noteq> H (fw_image_bytes prng 43)"
  shows "passed (fw_images (snd (init_verify_tamper_verify H prng st fs 1 now)) ! 1) = False"
    and "verified (fw_images (snd (init_verify_tamper_verify H prng st fs 1 now)) ! 2) = True"
    and "verified (fw_images (snd (init_verify_tamper_verify H prng st fs 1 now)) ! 3) = True"
proof -
  define st1 where "st1 = fst (snd (secure_boot_init H prng st fs now))"
  define fs1 where "fs1 = snd (snd (secure_boot_init H prng st fs now))"
  define A where "A = (fw_images st ! 0)\<lparr>fw_name := ''bootloader'', verified := False,
     passed := False, expected_hash := H (fw_image_bytes prng 42)\<rparr>"
  define B where "B = (fw_images st ! 1)\<lparr>fw_name := ''bmc_firmware'', verified := False,
     passed := False, expected_hash := H (fw_image_bytes prng 43)\<rparr>"
  define C where "C = (fw_images st ! 2)\<lparr>fw_name := ''application'', verified := False,
     passed := False, expected_hash := H (fw_image_bytes prng 44)\<rparr>"
  define D where "D = (fw_images st ! 3)\<lparr>fw_name := ''config_data'', verified := False,
     passed := False, expected_hash := H (fw_image_bytes prng 45)\<rparr>"
  note r = secure_boot_init_result [OF len w, of H prng now, folded st1_def fs1_def A_def B_def C_def D_def]
  have names: "fw_name A = ''bootloader''" "fw_name B = ''bmc_firmware''"
    "fw_name C = ''application''" "fw_name D = ''config_data''"
    by (simp_all add: A_def B_def C_def D_def)
  have fA: "files fs1 (fw_path (fw_name A)) = Some (fw_image_bytes prng 42)"
    and fB: "files fs1 (fw_path (fw_name B)) = Some (fw_image_bytes prng 43)"
    and fC: "files fs1 (fw_path (fw_name C)) = Some (fw_image_bytes prng 44)"
    and fD: "files fs1 (fw_path (fw_name D)) = Some (fw_image_bytes prng 45)"
    by (simp_all add: names fw_paths r(3))
  have eA: "expected_hash A = H (fw_image_bytes prng 42)"
    and eB: "expected_hash B = H (fw_image_bytes prng 43)"
    and eC: "expected_hash C = H (fw_image_bytes prng 44)"
    and eD: "expected_hash D = H (fw_image_bytes prng 45)"
    by (simp_all add: A_def B_def C_def D_def)
  define st2 where "st2 = snd (secure_boot_verify H fs1 st1 now)"
  note v1 = verify4_all_match [OF r(2) r(1) fA eA fB eB fC eC fD eD, of now, folded st2_def]
  define A' where "A' = A\<lparr>actual_hash := H (fw_image_bytes prng 42), verified := True, passed := True\<rparr>"
  define B' where "B' = B\<lparr>actual_hash := H (fw_image_bytes prng 43), verified := True, passed := True\<rparr>"
  define C' where "C' = C\<lparr>actual_hash := H (fw_image_bytes prng 44), verified := True, passed := True\<rparr>"
  define D' where "D' = D\<lparr>actual_hash := H (fw_image_bytes prng 45), verified := True, passed := True\<rparr>"
  have im2: "fw_images st2 = [A', B', C', D']"
    using v1(3) by (simp add: A'_def B'_def C'_def D'_def)
  have names': "fw_name A' = ''bootloader''" "fw_name B' = ''bmc_firmware''"
    by (simp_all add: A'_def B'_def names)
  define st3 where "st3 = fst (snd (secure_boot_inject_tamper st2 fs1 1 now))"
  define fs3 where "fs3 = snd (snd (secure_boot_inject_tamper st2 fs1 1 now))"
  have rd: "files fs1 (fw_path (fw_name (fw_images st2 ! nat 1))) = Some (fw_image_bytes prng 43)"
    using fB by (simp add: im2 names names')
  have wr: "\<not> wdenied fs1 (fw_path (fw_name (fw_images st2 ! nat 1)))"
    using w(2) by (simp add: im2 names' fw_paths r(3))
  have c: "(0::int) \<le> 1" "1 < fw_image_count st2"
    by (simp_all add: v1(2))
  note t = inject_tamper_result [OF c rd wr, of now, folded st3_def fs3_def]
  have im3: "fw_images st3 = [A', B', C', D']" and c3: "fw_image_count st3 = 4"
    by (simp_all add: t im2 v1(2))
  have fA3: "files fs3 (fw_path (fw_name A')) = Some (fw_image_bytes prng 42)"
    and fB3: "files fs3 (fw_path (fw_name B')) = Some (255 # drop 1 (fw_image_bytes prng 43))"
    by (simp_all add: t(3) im2 names' fw_paths r(3))
  have eA3: "expected_hash A' = H (fw_image_bytes prng 42)"
    by (simp add: A'_def eA)
  have eB3: "expected_hash B' \<noteq> H (255 # drop 1 (fw_image_bytes prng 43))"
    using ne by (simp add: B'_def eB)
  note v2 = verify4_second_mismatch [OF im3 c3 fA3 eA3 fB3 eB3, of now]
  have fin: "init_verify_tamper_verify H prng st fs 1 now = secure_boot_verify H fs3 st3 now"
    by (simp add: init_verify_tamper_verify_def Let_def st1_def fs1_def st2_def st3_def fs3_def)
  show "passed (fw_images (snd (init_verify_tamper_verify H prng st fs 1 now)) ! 1) = False"
    unfolding fin v2(3) by simp
  show "verified (fw_images (snd (init_verify_tamper_verify H prng st fs 1 now)) ! 2) = True"
    unfolding fin v2(3) by (simp add: C'_def)
  show "verified (fw_images (snd (init_verify_tamper_verify H prng st fs 1 now)) ! 3) = True"
    unfolding fin v2(3) by (simp add: D'_def)
qed

lemma head_digest_tampered:
  "head_digest (255 # drop 1 (fw_image_bytes counting_prng 43))
     \<noteq> head_digest (fw_image_bytes counting_prng 43)"
  by (simp add: head_digest_def fw_image_bytes_Cons counting_prng_def)

lemma initial_state_facts:
  "length (fw_images (snd (bmc_state_init True))) = 4"
  "\<not> wdenied empty_fs p"
  by (simp_all add: bmc_state_init_def zero_state_def MAX_FW_IMAGES_def empty_fs_def)

text \<open>
  Claim C2, as stated: after a call of \<^verbatim>\<open>secure_boot_verify\<close> in which image \<open>i\<close> fails,
  every later image has \<open>verified = false\<close>. The verifier never clears the flags, so
  they keep what an earlier call has set: after \<^verbatim>\<open>secure_boot_init\<close>, a first
  verification that passes (the one the supervisor runs at start), \<open>tamper(1)\<close> and a
  second verification, image 1 has \<open>passed = false\<close> while images 2 and 3 still have
  \<open>verified = true\<close>.
\<close>

theorem verify_chain_stale_flags_counterexample:
  "\<not> passed (fw_images (snd (init_verify_tamper_verify head_digest counting_prng
        (snd (bmc_state_init True)) empty_fs 1 0)) ! 1)
   \<and> verified (fw_images (snd (init_verify_tamper_verify head_digest counting_prng
        (snd (bmc_state_init True)) empty_fs 1 0)) ! 2)
   \<and> verified (fw_images (snd (init_verify_tamper_verify head_digest counting_prng
        (snd (bmc_state_init True)) empty_fs 1 0)) ! 3)"
  using init_verify_tamper_verify_result [OF initial_state_facts(1) initial_state_facts(2)
      initial_state_facts(2) initial_state_facts(2) initial_state_facts(2) head_digest_tampered, of 0]
  by simp

text \<open>
  Claim C2, amended: if before a call of \<^verbatim>\<open>secure_boot_verify\<close> an image \<open>j\<close> has
  \<open>verified = false\<close> (as every image has after \<^verbatim>\<open>secure_boot_init\<close>), and an earlier
  image \<open>i < j\<close> whose blob can be read has \<open>passed = false\<close> after the call, then image
  \<open>j\<close> still has \<open>verified = false\<close> after the call. In particular, after
  \<^verbatim>\<open>secure_boot_init\<close> (on a state with four image slots, the four blobs writable),
  \<open>tamper(1)\<close> and one verification, when the digest of the tampered blob differs from
  the digest of the original one: image 0 has \<open>passed = true\<close>, image 1 has
  \<open>passed = false\<close>, images 2 and 3 have \<open>verified = false\<close>, \<open>secure_boot_passed\<close> is
  false and so is the result.
\<close>

theorem verify_chain_break:
  "(nat (fw_image_count st) \<le> length (fw_images st) \<and> i < j \<and> j < nat (fw_image_count st)
      \<and> files fs (fw_path (fw_name (fw_images st ! i))) \<noteq> None
      \<and> \<not> verified (fw_images st ! j)
      \<and> \<not> passed (fw_images (snd (secure_boot_verify H fs st now)) ! i)
    \<longrightarrow> \<not> verified (fw_images (snd (secure_boot_verify H fs st now)) ! j))
   \<and> (length (fw_images boot_st) = MAX_FW_IMAGES
      \<and> \<not> wdenied boot_fs (fw_path ''bootloader'') \<and> \<not> wdenied boot_fs (fw_path ''bmc_firmware'')
      \<and> \<not> wdenied boot_fs (fw_path ''application'') \<and> \<not> wdenied boot_fs (fw_path ''config_data'')
      \<and> H (255 # drop 1 (fw_image_bytes prng 43)) \<noteq> H (fw_image_bytes prng 43)
    \<longrightarrow> passed (fw_images (snd (init_tamper_verify H prng boot_st boot_fs 1 now)) ! 0)
        \<and> \<not> passed (fw_images (snd (init_tamper_verify H prng boot_st boot_fs 1 now)) ! 1)
        \<and> \<not> verified (fw_images (snd (init_tamper_verify H prng boot_st boot_fs 1 now)) ! 2)
        \<and> \<not> verified (fw_images (snd (init_tamper_verify H prng boot_st boot_fs 1 now)) ! 3)
        \<and> \<not> secure_boot_passed (snd (init_tamper_verify H prng boot_st boot_fs 1 now))
        \<and> \<not> fst (init_tamper_verify H prng boot_st boot_fs 1 now))"
proof (intro conjI impI)
  assume "nat (fw_image_count st) \<le> length (fw_images st) \<and> i < j \<and> j < nat (fw_image_count st)
      \<and> files fs (fw_path (fw_name (fw_images st ! i))) \<noteq> None
      \<and> \<not> verified (fw_images st ! j)
      \<and> \<not> passed (fw_images (snd (secure_boot_verify H fs st now)) ! i)"
  then show "\<not> verified (fw_images (snd (secure_boot_verify H fs st now)) ! j)"
    using verify_chain_general [of st i j fs H now] by blast
next
  assume a: "length (fw_images boot_st) = MAX_FW_IMAGES
      \<and> \<not> wdenied boot_fs (fw_path ''bootloader'') \<and> \<not> wdenied boot_fs (fw_path ''bmc_firmware'')
      \<and> \<not> wdenied boot_fs (fw_path ''application'') \<and> \<not> wdenied boot_fs (fw_path ''config_data'')
      \<and> H (255 # drop 1 (fw_image_bytes prng 43)) \<noteq> H (fw_image_bytes prng 43)"
  then have len: "length (fw_images boot_st) = 4"
    and w: "\<not> wdenied boot_fs ''/tmp/bmc_fw_images/bootloader.bin''"
      "\<not> wdenied boot_fs ''/tmp/bmc_fw_images/bmc_firmware.bin''"
      "\<not> wdenied boot_fs ''/tmp/bmc_fw_images/application.bin''"
      "\<not> wdenied boot_fs ''/tmp/bmc_fw_images/config_data.bin''"
    and ne: "H (255 # drop 1 (fw_image_bytes prng 43)) \<noteq> H (fw_image_bytes prng 43)"
    by (simp_all add: MAX_FW_IMAGES_def fw_paths)
  note v = init_tamper_verify_result [OF len w ne, of now]
  show "passed (fw_images (snd (init_tamper_verify H prng boot_st boot_fs 1 now)) ! 0)"
    unfolding v(3) by simp
  show "\<not> passed (fw_images (snd (init_tamper_verify H prng boot_st boot_fs 1 now)) ! 1)"
    unfolding v(3) by simp
  show "\<not> verified (fw_images (snd (init_tamper_verify H prng boot_st boot_fs 1 now)) ! 2)"
    unfolding v(3) by simp
  show "\<not> verified (fw_images (snd (init_tamper_verify H prng boot_st boot_fs 1 now)) ! 3)"
    unfolding v(3) by simp
  show "\<not> secure_boot_passed (snd (init_tamper_verify H prng boot_st boot_fs 1 now))"
    using v(2) by simp
  show "\<not> fst (init_tamper_verify H prng boot_st boot_fs 1 now)"
    using v(1) by simp
qed

theorem verify_chain_break_witness:
  "passed (fw_images (snd (init_tamper_verify head_digest counting_prng
       (snd (bmc_state_init True)) empty_fs 1 0)) ! 0)
   \<and> \<not> passed (fw_images (snd (init_tamper_verify head_digest counting_prng
       (snd (bmc_state_init True)) empty_fs 1 0)) ! 1)
   \<and> \<not> verified (fw_images (snd (init_tamper_verify head_digest counting_prng
       (snd (bmc_state_init True)) empty_fs 1 0)) ! 2)
   \<and> \<not> verified (fw_images (snd (init_tamper_verify head_digest counting_prng
       (snd (bmc_state_init True)) empty_fs 1 0)) ! 3)
   \<and> \<not> secure_boot_passed (snd (init_tamper_verify head_digest counting_prng
       (snd (bmc_state_init True)) empty_fs 1 0))
   \<and> \<not> verified (fw_images (snd (secure_boot_verify head_digest
         (snd (init_tamper head_digest counting_prng (snd (bmc_state_init True)) empty_fs 1 0))
         (fst (init_tamper head_digest counting_prng (snd (bmc_state_init True)) empty_fs 1 0))
         0)) ! 2)"
proof -
  define IT where
    "IT = init_tamper head_digest counting_prng (snd (bmc_state_init True)) empty_fs 1 0"
  have hyp2: "length (fw_images (snd (bmc_state_init True))) = MAX_FW_IMAGES
      \<and> \<not> wdenied empty_fs (fw_path ''bootloader'') \<and> \<not> wdenied empty_fs (fw_path ''bmc_firmware'')
      \<and> \<not> wdenied empty_fs (fw_path ''application'') \<and> \<not> wdenied empty_fs (fw_path ''config_data'')
      \<and> head_digest (255 # drop 1 (fw_image_bytes counting_prng 43))
          \<noteq> head_digest (fw_image_bytes counting_prng 43)"
    using head_digest_tampered by (simp add: initial_state_facts MAX_FW_IMAGES_def)
  have sc: "passed (fw_images (snd (init_tamper_verify head_digest counting_prng
         (snd (bmc_state_init True)) empty_fs 1 0)) ! 0)
     \<and> \<not> passed (fw_images (snd (init_tamper_verify head_digest counting_prng
         (snd (bmc_state_init True)) empty_fs 1 0)) ! 1)
     \<and> \<not> verified (fw_images (snd (init_tamper_verify head_digest counting_prng
         (snd (bmc_state_init True)) empty_fs 1 0)) ! 2)
     \<and> \<not> verified (fw_images (snd (init_tamper_verify head_digest counting_prng
         (snd (bmc_state_init True)) empty_fs 1 0)) ! 3)
     \<and> \<not> secure_boot_passed (snd (init_tamper_verify head_digest counting_prng
         (snd (bmc_state_init True)) empty_fs 1 0))
     \<and> \<not> fst (init_tamper_verify head_digest counting_prng
         (snd (bmc_state_init True)) empty_fs 1 0)"
    using verify_chain_break [where H = head_digest and prng = counting_prng
        and boot_st = "snd (bmc_state_init True)" and boot_fs = empty_fs and now = 0,
        THEN conjunct2] hyp2
    by blast
  have un: "init_tamper_verify head_digest counting_prng (snd (bmc_state_init True)) empty_fs 1 0
      = secure_boot_verify head_digest (snd IT) (fst IT) 0"
    by (simp add: init_tamper_verify_def Let_def IT_def)
  note t = init_tamper_result [OF initial_state_facts(1) initial_state_facts(2)
      initial_state_facts(2) initial_state_facts(2) initial_state_facts(2),
      of head_digest counting_prng 0, folded IT_def]
  have hyp1: "nat (fw_image_count (fst IT)) \<le> length (fw_images (fst IT)) \<and> (1::nat) < 2
      \<and> 2 < nat (fw_image_count (fst IT))
      \<and> files (snd IT) (fw_path (fw_name (fw_images (fst IT) ! 1))) \<noteq> None
      \<and> \<not> verified (fw_images (fst IT) ! 2)
      \<and> \<not> passed (fw_images (snd (secure_boot_verify head_digest (snd IT) (fst IT) 0)) ! 1)"
    using sc unfolding un by (simp add: t fw_paths)
  have g: "\<not> verified (fw_images (snd (secure_boot_verify head_digest (snd IT) (fst IT) 0)) ! 2)"
    using verify_chain_break [where st = "fst IT" and fs = "snd IT" and i = 1 and j = 2
        and H = head_digest and now = 0, THEN conjunct1] hyp1
    by blast
  show ?thesis
    using sc g by (simp add: IT_def)
qed

end
